theory Spec2Isabelle
  imports Complex_Main "HOL-Library.Char_ord" "HOL-Library.List_Lexorder"
begin

section \<open>The Data Handler of humancompatible.detect\<close>

text \<open>
  A shallow embedding of \<^verbatim>\<open>src/humancompatible/detect/data_handler/DataHandler.py\<close>.
  The Data Handler owns an ordered list of Features and two lists of Feature pairs; it
  encodes a raw table column by column, decodes an encoded matrix slice by slice, and
  validates the change between two raw rows.

  The Feature classes (\<^verbatim>\<open>features.py\<close>) are not part of the source at hand. A Feature
  is therefore a record of the methods the Data Handler calls on it, taken as parameters;
  the theorems that need more than that state the Feature contract as a hypothesis.
\<close>

subsection \<open>Errors\<close>

text \<open>
  The exceptions the Data Handler and the numpy and pandas operations it calls can raise.
\<close>

datatype error = IndexError | ValueError | TypeError | AttributeError

definition bind_err :: "error + 'a \<Rightarrow> ('a \<Rightarrow> error + 'b) \<Rightarrow> error + 'b" where
  "bind_err m k = (case m of Inl e \<Rightarrow> Inl e | Inr x \<Rightarrow> k x)"

subsection \<open>Values and arrays\<close>

text \<open>
  A \<^verbatim>\<open>float64\<close> is a finite number or NaN. The Data Handler does no arithmetic on
  cells, it moves them and compares them, so a finite float is its real value (the
  rounding of a Feature's arithmetic is the Feature's) and the infinities are left out.
  Every comparison with NaN is False.
\<close>

datatype float64 = Fin real | NaN

fun float_gt :: "float64 \<Rightarrow> float64 \<Rightarrow> bool" where
  "float_gt (Fin a) (Fin b) = (a > b)"
| "float_gt _ _ = False"

fun float_le :: "float64 \<Rightarrow> float64 \<Rightarrow> bool" where
  "float_le (Fin a) (Fin b) = (a \<le> b)"
| "float_le _ _ = False"

text \<open>A raw cell is a number or a label; an encoded cell is a \<^verbatim>\<open>float64\<close>.\<close>

datatype raw = Num float64 | Str string

text \<open>
  A two-dimensional array: \<open>ncols\<close> is \<^verbatim>\<open>shape[1]\<close> and the length of \<open>rows\<close> is
  \<^verbatim>\<open>shape[0]\<close>. The column count is kept apart because an array with no rows still
  has one.
\<close>

record 'a matrix =
  ncols :: nat
  rows :: "'a list list"

definition rectangular :: "'a matrix \<Rightarrow> bool" where
  "rectangular X = list_all (\<lambda>r. length r = ncols X) (rows X)"

datatype 'a ndarray = Arr1 "'a list" | Arr2 "'a matrix"

text \<open>The cells of an array in row-major order.\<close>

definition ravel :: "'a ndarray \<Rightarrow> 'a list" where
  "ravel A = (case A of Arr1 xs \<Rightarrow> xs | Arr2 M \<Rightarrow> concat (rows M))"

text \<open>\<^verbatim>\<open>xs[i]\<close> for an index that is not negative.\<close>

definition getitem :: "'a list \<Rightarrow> nat \<Rightarrow> error + 'a" where
  "getitem xs i = (if i < length xs then Inr (xs ! i) else Inl IndexError)"

text \<open>\<^verbatim>\<open>X[:, i]\<close>: the column at an index that is not negative.\<close>

definition getcol :: "'a matrix \<Rightarrow> nat \<Rightarrow> error + 'a list" where
  "getcol X i = (if i < ncols X then Inr (map (\<lambda>r. r ! i) (rows X)) else Inl IndexError)"

text \<open>
  \<^verbatim>\<open>X[:, a:b]\<close>: a slice never fails, it is clipped to the columns there are.
\<close>

definition slice_cols :: "'a matrix \<Rightarrow> nat \<Rightarrow> nat \<Rightarrow> 'a matrix" where
  "slice_cols X a b =
     \<lparr>ncols = min b (ncols X) - min a (ncols X),
      rows = map (\<lambda>r. take (b - a) (drop a r)) (rows X)\<rparr>"

text \<open>
  \<^verbatim>\<open>a.reshape(n, -1)\<close> on the cells of \<open>a\<close> in row-major order, whatever the shape
  of \<open>a\<close> was: numpy refuses it when the known dimension is 0 or does not divide the
  size.
\<close>

definition reshape_rows :: "nat \<Rightarrow> 'a list \<Rightarrow> error + 'a matrix" where
  "reshape_rows n xs =
     (if n = 0 \<or> length xs mod n \<noteq> 0 then Inl ValueError
      else let w = length xs div n
           in Inr \<lparr>ncols = w, rows = map (\<lambda>i. take w (drop (i * w) xs)) [0..<n]\<rparr>)"

text \<open>Two arrays with the same number of rows, side by side.\<close>

definition hstack2 :: "'a matrix \<Rightarrow> 'a matrix \<Rightarrow> 'a matrix" where
  "hstack2 A B = \<lparr>ncols = ncols A + ncols B, rows = map2 (@) (rows A) (rows B)\<rparr>"

text \<open>
  \<^verbatim>\<open>np.concatenate(Ms, axis=1)\<close>: it needs at least one array, and all of them with the
  same number of rows.
\<close>

fun concatenate_axis1 :: "'a matrix list \<Rightarrow> error + 'a matrix" where
  "concatenate_axis1 [] = Inl ValueError"
| "concatenate_axis1 (M # Ms) =
     (if list_all (\<lambda>N. length (rows N) = length (rows M)) Ms
      then Inr (foldr hstack2 (M # Ms) \<lparr>ncols = 0, rows = replicate (length (rows M)) []\<rparr>)
      else Inl ValueError)"

text \<open>
  What a Feature's \<^verbatim>\<open>decode\<close> returns: a labelled pandas Series, or a numpy array.
\<close>

datatype column = Series string "raw list" | NDArray "raw list"

type_synonym dataframe = "(string \<times> raw list) list"

text \<open>
  \<^verbatim>\<open>pd.concat(dec, axis=1)\<close> on Series that share their index: the columns side by
  side under the Series' labels. pandas refuses an empty list and a numpy array.
\<close>

fun series_columns :: "column list \<Rightarrow> error + dataframe" where
  "series_columns [] = Inr []"
| "series_columns (Series l vs # cs) = bind_err (series_columns cs) (\<lambda>d. Inr ((l, vs) # d))"
| "series_columns (NDArray vs # cs) = Inl TypeError"

definition pd_concat_axis1 :: "column list \<Rightarrow> error + dataframe" where
  "pd_concat_axis1 dec = (if dec = [] then Inl ValueError else series_columns dec)"

text \<open>
  \<^verbatim>\<open>[x.reshape(n, -1) for x in dec]\<close>: a Series has no \<^verbatim>\<open>reshape\<close>.
\<close>

fun reshape_all :: "nat \<Rightarrow> column list \<Rightarrow> error + raw matrix list" where
  "reshape_all n [] = Inr []"
| "reshape_all n (NDArray vs # cs) =
     bind_err (reshape_rows n vs) (\<lambda>M. bind_err (reshape_all n cs) (\<lambda>Ms. Inr (M # Ms)))"
| "reshape_all n (Series l vs # cs) = Inl AttributeError"

text \<open>
  \<^verbatim>\<open>a > b\<close> on two raw cells: numbers by magnitude, labels lexicographically, and a
  TypeError between a number and a label.
\<close>

fun raw_gt :: "raw \<Rightarrow> raw \<Rightarrow> error + bool" where
  "raw_gt (Num a) (Num b) = Inr (float_gt a b)"
| "raw_gt (Str a) (Str b) = Inr (a > b)"
| "raw_gt _ _ = Inl TypeError"

subsection \<open>Features and the Data Handler\<close>

text \<open>
  Modelled from the spec: the kinds of Feature (the classes are declared in
  \<^verbatim>\<open>features.py\<close>, which is not at hand).
\<close>

datatype kind = Binary | Categorical | Contiguous

text \<open>
  A Feature, as the Data Handler consumes it. \<open>ident\<close> is the identity of the Python
  object: \<^verbatim>\<open>list.index\<close> finds a Feature by identity. \<^verbatim>\<open>encode\<close> is called on a
  column in \<^verbatim>\<open>DataHandler.encode\<close> (\<open>feature_encode\<close>, returning an array of one or
  two dimensions) and on a single value in \<^verbatim>\<open>allowed_changes\<close>
  (\<open>feature_encode_value\<close>). \<^verbatim>\<open>decode\<close> takes an array; the Data Handler always
  passes it a two-dimensional slice.
\<close>

record feature =
  ident :: nat
  feature_name :: string
  feature_kind :: kind
  modifiable :: bool
  feature_encode :: "raw list \<Rightarrow> bool \<Rightarrow> bool \<Rightarrow> float64 ndarray"
  feature_encode_value :: "raw \<Rightarrow> bool \<Rightarrow> bool \<Rightarrow> float64"
  feature_decode :: "float64 ndarray \<Rightarrow> bool \<Rightarrow> bool \<Rightarrow> column"
  feature_encoding_width :: "bool \<Rightarrow> nat"
  feature_allowed_change :: "raw \<Rightarrow> raw \<Rightarrow> bool"
  feature_greater_than :: "float64 \<Rightarrow> float64 set"

record data_handler =
  features :: "feature list"
  target_feature :: "feature option"
  causal_inc :: "(feature \<times> feature) list"
  greater_than :: "(feature \<times> feature) list"

definition n_features :: "data_handler \<Rightarrow> nat" where
  "n_features h = length (features h)"

definition feature_names :: "data_handler \<Rightarrow> string list" where
  "feature_names h = map feature_name (features h)"

subsection \<open>encode\<close>

text \<open>
  The loop of \<^verbatim>\<open>encode\<close>: for each Feature, by its position, the column is taken,
  encoded by the Feature and reshaped to one row per sample. The flag \<^verbatim>\<open>normalize\<close> is
  written \<open>normalise\<close>, since HOL has a constant of the source's name.
\<close>

fun encode_columns ::
  "feature list \<Rightarrow> nat \<Rightarrow> raw matrix \<Rightarrow> bool \<Rightarrow> bool \<Rightarrow> error + float64 matrix list" where
  "encode_columns [] feat_i X normalise one_hot = Inr []"
| "encode_columns (f # fs) feat_i X normalise one_hot =
     bind_err (getcol X feat_i) (\<lambda>col.
     bind_err (reshape_rows (length (rows X))
                 (ravel (feature_encode f col normalise one_hot))) (\<lambda>E.
     bind_err (encode_columns fs (Suc feat_i) X normalise one_hot) (\<lambda>Es.
     Inr (E # Es))))"

text \<open>
  The two-dimensional case of \<^verbatim>\<open>encode\<close>: the encoded columns side by side. The
  closing \<^verbatim>\<open>astype(np.float64)\<close> changes nothing on cells that are \<^verbatim>\<open>float64\<close>
  already.
\<close>

definition encode_matrix ::
  "data_handler \<Rightarrow> raw matrix \<Rightarrow> bool \<Rightarrow> bool \<Rightarrow> error + float64 matrix" where
  "encode_matrix h X normalise one_hot =
     bind_err (encode_columns (features h) 0 X normalise one_hot) concatenate_axis1"

text \<open>
  \<^verbatim>\<open>encode\<close>: a one-dimensional input is reshaped to one row, encoded, and the first
  row of the result is returned.
\<close>

definition encode ::
  "data_handler \<Rightarrow> raw ndarray \<Rightarrow> bool \<Rightarrow> bool \<Rightarrow> error + float64 ndarray" where
  "encode h X normalise one_hot =
     (case X of
        Arr1 r \<Rightarrow>
          bind_err (reshape_rows 1 r) (\<lambda>Xmat.
          bind_err (encode_matrix h Xmat normalise one_hot) (\<lambda>E.
          bind_err (getitem (rows E) 0) (\<lambda>r0. Inr (Arr1 r0))))
      | Arr2 M \<Rightarrow>
          bind_err (encode_matrix h M normalise one_hot) (\<lambda>E. Inr (Arr2 E)))"

subsection \<open>decode\<close>

datatype decoded = Frame dataframe | Array "raw matrix"

text \<open>
  The loop of \<^verbatim>\<open>decode\<close>, with its running column cursor.
\<close>

fun decode_columns ::
  "feature list \<Rightarrow> nat \<Rightarrow> float64 matrix \<Rightarrow> bool \<Rightarrow> bool \<Rightarrow> bool \<Rightarrow> column list" where
  "decode_columns [] curr_col X denormalize encoded_one_hot as_dataframe = []"
| "decode_columns (f # fs) curr_col X denormalize encoded_one_hot as_dataframe =
     (let w = feature_encoding_width f encoded_one_hot
      in feature_decode f (Arr2 (slice_cols X curr_col (curr_col + w))) denormalize
           as_dataframe
         # decode_columns fs (curr_col + w) X denormalize encoded_one_hot as_dataframe)"

definition decode ::
  "data_handler \<Rightarrow> float64 matrix \<Rightarrow> bool \<Rightarrow> bool \<Rightarrow> bool \<Rightarrow> error + decoded" where
  "decode h X denormalize encoded_one_hot as_dataframe =
     (if length (rows X) = 0 then
        (if as_dataframe then Inr (Frame (map (\<lambda>f. (feature_name f, [])) (features h)))
         else Inr (Array \<lparr>ncols = n_features h, rows = []\<rparr>))
      else
        let dec = decode_columns (features h) 0 X denormalize encoded_one_hot as_dataframe
        in if as_dataframe then bind_err (pd_concat_axis1 dec) (\<lambda>d. Inr (Frame d))
           else bind_err (reshape_all (length (rows X)) dec) (\<lambda>Ms.
                bind_err (concatenate_axis1 Ms) (\<lambda>M. Inr (Array M))))"

subsection \<open>encoding_width\<close>

definition encoding_width :: "data_handler \<Rightarrow> bool \<Rightarrow> nat" where
  "encoding_width h one_hot = sum_list (map (\<lambda>f. feature_encoding_width f one_hot) (features h))"

subsection \<open>allowed_changes\<close>

text \<open>
  \<^verbatim>\<open>features.index(f)\<close>: the first position holding the object \<open>f\<close>, and a ValueError
  when no position does.
\<close>

fun index :: "feature list \<Rightarrow> feature \<Rightarrow> error + nat" where
  "index [] f = Inl ValueError"
| "index (g # gs) f =
     (if ident g = ident f then Inr 0 else bind_err (index gs f) (\<lambda>i. Inr (Suc i)))"

text \<open>
  The first loop: \<^verbatim>\<open>zip\<close> stops at the shortest of its three arguments.
\<close>

fun feature_check :: "feature list \<Rightarrow> raw list \<Rightarrow> raw list \<Rightarrow> bool" where
  "feature_check (f # fs) (pre # pre_vals) (pos # post_vals) =
     (if \<not> feature_allowed_change f pre pos then False
      else feature_check fs pre_vals post_vals)"
| "feature_check _ _ _ = True"

text \<open>
  One Feature's raw-encoded values in the two rows:
  \<^verbatim>\<open>f.encode(vals[features.index(f)], normalize=False, one_hot=False)\<close>.
\<close>

definition encoded_pair ::
  "feature list \<Rightarrow> feature \<Rightarrow> raw list \<Rightarrow> raw list \<Rightarrow> error + float64 \<times> float64" where
  "encoded_pair fs f pre_vals post_vals =
     bind_err (index fs f) (\<lambda>i.
     bind_err (getitem pre_vals i) (\<lambda>pre.
     bind_err (getitem post_vals i) (\<lambda>pos.
     Inr (feature_encode_value f pre False False, feature_encode_value f pos False False))))"

text \<open>
  The second loop, over the causal pairs. The result is \<open>Inr False\<close> where the source
  returns False, and \<open>Inr True\<close> where the loop runs to its end. The cause is tested
  with \<^verbatim>\<open>pos_cause > pre_cause\<close> and the effect with \<^verbatim>\<open>pos_effect <= pre_effect\<close>:
  two comparisons of \<^verbatim>\<open>float64\<close>, both False when a value is NaN.
\<close>

fun causal_check ::
  "feature list \<Rightarrow> (feature \<times> feature) list \<Rightarrow> raw list \<Rightarrow> raw list \<Rightarrow> error + bool" where
  "causal_check fs [] pre_vals post_vals = Inr True"
| "causal_check fs ((cause, effect) # ps) pre_vals post_vals =
     bind_err (encoded_pair fs cause pre_vals post_vals) (\<lambda>(pre_cause, pos_cause).
     bind_err (case feature_kind cause of
                 Categorical \<Rightarrow> Inr (pos_cause \<in> feature_greater_than cause pre_cause)
               | Contiguous \<Rightarrow> Inr (float_gt pos_cause pre_cause)
               | Binary \<Rightarrow> Inl ValueError) (\<lambda>applied.
     if applied then
       bind_err (encoded_pair fs effect pre_vals post_vals) (\<lambda>(pre_effect, pos_effect).
       case feature_kind effect of
         Categorical \<Rightarrow>
           if pos_effect \<notin> feature_greater_than effect pre_effect then Inr False
           else causal_check fs ps pre_vals post_vals
       | Contiguous \<Rightarrow>
           if float_le pos_effect pre_effect then Inr False
           else causal_check fs ps pre_vals post_vals
       | Binary \<Rightarrow> Inl ValueError)
     else causal_check fs ps pre_vals post_vals))"

text \<open>
  The third loop, over the ordering pairs: only \<^verbatim>\<open>post_vals\<close> is read, and the raw
  values are compared.
\<close>

fun ordering_check ::
  "feature list \<Rightarrow> (feature \<times> feature) list \<Rightarrow> raw list \<Rightarrow> error + bool" where
  "ordering_check fs [] post_vals = Inr True"
| "ordering_check fs ((greater_f, smaller_f) # ps) post_vals =
     bind_err (index fs smaller_f) (\<lambda>si.
     bind_err (getitem post_vals si) (\<lambda>sv.
     bind_err (index fs greater_f) (\<lambda>gi.
     bind_err (getitem post_vals gi) (\<lambda>gv.
     bind_err (raw_gt sv gv) (\<lambda>exceeds.
     if exceeds then Inr False else ordering_check fs ps post_vals)))))"

definition allowed_changes :: "data_handler \<Rightarrow> raw list \<Rightarrow> raw list \<Rightarrow> error + bool" where
  "allowed_changes h pre_vals post_vals =
     (if \<not> feature_check (features h) pre_vals post_vals then Inr False
      else bind_err (causal_check (features h) (causal_inc h) pre_vals post_vals) (\<lambda>ok.
           if \<not> ok then Inr False
           else ordering_check (features h) (greater_than h) post_vals))"

subsection \<open>The words of the specification\<close>

text \<open>
  The specification's "increased": for a Categorical Feature the after-value is in the
  before-value's \<^verbatim>\<open>greater_than\<close> set, for a Contiguous Feature it is strictly
  greater; both on the values encoded without normalization and one-hot expansion.
\<close>

definition increased :: "feature list \<Rightarrow> feature \<Rightarrow> raw list \<Rightarrow> raw list \<Rightarrow> bool" where
  "increased fs f pre_vals post_vals =
     (case index fs f of
        Inl e \<Rightarrow> False
      | Inr i \<Rightarrow>
          let pre = feature_encode_value f (pre_vals ! i) False False;
              pos = feature_encode_value f (post_vals ! i) False False
          in case feature_kind f of
               Categorical \<Rightarrow> pos \<in> feature_greater_than f pre
             | Contiguous \<Rightarrow> float_gt pos pre
             | Binary \<Rightarrow> False)"

text \<open>
  A Feature that a causal pair can be evaluated on: it is in the Feature list, both rows
  reach its position, and it is Categorical or Contiguous.
\<close>

definition causal_ready :: "feature list \<Rightarrow> feature \<Rightarrow> raw list \<Rightarrow> raw list \<Rightarrow> bool" where
  "causal_ready fs f pre_vals post_vals =
     (case index fs f of
        Inl e \<Rightarrow> False
      | Inr i \<Rightarrow> i < length pre_vals \<and> i < length post_vals \<and> feature_kind f \<noteq> Binary)"

text \<open>
  A causal pair that is misconfigured where the evaluation looks: the cause is not in the
  Feature list or is Binary, or the cause increased and the effect is not in the list or
  is Binary.
\<close>

definition causal_misconfigured ::
  "feature list \<Rightarrow> raw list \<Rightarrow> raw list \<Rightarrow> feature \<times> feature \<Rightarrow> bool" where
  "causal_misconfigured fs pre_vals post_vals p =
     (isl (index fs (fst p)) \<or> feature_kind (fst p) = Binary \<or>
      (increased fs (fst p) pre_vals post_vals \<and>
       (isl (index fs (snd p)) \<or> feature_kind (snd p) = Binary)))"

text \<open>
  An ordering pair that can be evaluated on the after row: both Features are in the list,
  the row reaches their positions and the two raw values can be compared.
\<close>

definition ordering_ready :: "feature list \<Rightarrow> raw list \<Rightarrow> feature \<times> feature \<Rightarrow> bool" where
  "ordering_ready fs post_vals p =
     (case index fs (snd p) of
        Inl e \<Rightarrow> False
      | Inr si \<Rightarrow>
          (case index fs (fst p) of
             Inl e \<Rightarrow> False
           | Inr gi \<Rightarrow> si < length post_vals \<and> gi < length post_vals \<and>
                      \<not> isl (raw_gt (post_vals ! si) (post_vals ! gi))))"

text \<open>The smaller Feature's after-value strictly exceeds the greater Feature's.\<close>

definition exceeds :: "feature list \<Rightarrow> raw list \<Rightarrow> feature \<times> feature \<Rightarrow> bool" where
  "exceeds fs post_vals p =
     (case index fs (snd p) of
        Inl e \<Rightarrow> False
      | Inr si \<Rightarrow>
          (case index fs (fst p) of
             Inl e \<Rightarrow> False
           | Inr gi \<Rightarrow> raw_gt (post_vals ! si) (post_vals ! gi) = Inr True))"

text \<open>
  Modelled from the spec: an immutable Feature rejects any change (\<^verbatim>\<open>allowed_change\<close>
  is a method of the Feature classes, which are not at hand).
\<close>

definition immutable_contract :: "feature \<Rightarrow> bool" where
  "immutable_contract f =
     (\<not> modifiable f \<longrightarrow> (\<forall>a b. a \<noteq> b \<longrightarrow> \<not> feature_allowed_change f a b))"

text \<open>
  The Feature contract on one column: \<^verbatim>\<open>encode\<close> returns one row of
  \<^verbatim>\<open>encoding_width(one_hot)\<close> cells per sample.
\<close>

definition encodes_width :: "feature \<Rightarrow> raw list \<Rightarrow> bool \<Rightarrow> bool \<Rightarrow> bool" where
  "encodes_width f col normalise one_hot =
     (length (ravel (feature_encode f col normalise one_hot))
        = length col * feature_encoding_width f one_hot)"

text \<open>
  The encoded column as a matrix of \<^verbatim>\<open>encoding_width(one_hot)\<close> columns: what the
  reshaped result of \<^verbatim>\<open>encode\<close> is for a Feature that keeps to its width.
\<close>

definition encoded_column :: "feature \<Rightarrow> raw list \<Rightarrow> bool \<Rightarrow> bool \<Rightarrow> float64 matrix" where
  "encoded_column f col normalise one_hot =
     (let w = feature_encoding_width f one_hot
      in \<lparr>ncols = w,
          rows = map (\<lambda>i. take w (drop (i * w)
                              (ravel (feature_encode f col normalise one_hot))))
                   [0..<length col]\<rparr>)"

text \<open>
  The claim's assumption on one column, as it reads: \<^verbatim>\<open>decode\<close> applied to what
  \<^verbatim>\<open>encode\<close> returned gives the column back, labelled with the Feature's name when a
  Series is asked for.
\<close>

definition decode_inverts_encode ::
  "feature \<Rightarrow> raw list \<Rightarrow> bool \<Rightarrow> bool \<Rightarrow> bool \<Rightarrow> bool" where
  "decode_inverts_encode f col normalise one_hot as_dataframe =
     (feature_decode f (feature_encode f col normalise one_hot) normalise as_dataframe
        = (if as_dataframe then Series (feature_name f) col else NDArray col))"

text \<open>
  The Feature contract as the Data Handler relies on it. \<^verbatim>\<open>decode\<close> is not handed what
  \<^verbatim>\<open>encode\<close> returned but a two-dimensional slice of the matrix: the encoding reshaped to
  one row per sample. The contract on one column is that this reshaped block has the
  Feature's declared width and decodes to the column, up to the Feature's fidelity
  \<open>near f\<close>, as a Series under the Feature's name or as an array, as asked.
\<close>

definition feature_inverts ::
  "(feature \<Rightarrow> raw \<Rightarrow> raw \<Rightarrow> bool) \<Rightarrow> feature \<Rightarrow> raw list \<Rightarrow> bool \<Rightarrow> bool \<Rightarrow> bool \<Rightarrow> bool" where
  "feature_inverts near f col normalise one_hot as_dataframe =
     (case reshape_rows (length col) (ravel (feature_encode f col normalise one_hot)) of
        Inl e \<Rightarrow> False
      | Inr E \<Rightarrow>
          ncols E = feature_encoding_width f one_hot \<and>
          (case feature_decode f (Arr2 E) normalise as_dataframe of
             Series l vs \<Rightarrow> as_dataframe \<and> l = feature_name f \<and> list_all2 (near f) col vs
           | NDArray vs \<Rightarrow> \<not> as_dataframe \<and> list_all2 (near f) col vs))"

text \<open>
  The specification's fidelity: the labels of a Categorical or Binary Feature exactly, the
  numbers of a Contiguous Feature up to a tolerance.
\<close>

definition fidelity :: "real \<Rightarrow> feature \<Rightarrow> raw \<Rightarrow> raw \<Rightarrow> bool" where
  "fidelity eps f a b =
     (case (feature_kind f, a, b) of
        (Contiguous, Num (Fin x), Num (Fin y)) \<Rightarrow> \<bar>x - y\<bar> \<le> eps
      | _ \<Rightarrow> a = b)"

text \<open>The columns of a table, and the table cut to its first \<open>k\<close> columns.\<close>

definition columns :: "'a matrix \<Rightarrow> 'a list list" where
  "columns X = map (\<lambda>i. map (\<lambda>r. r ! i) (rows X)) [0..<ncols X]"

definition take_cols :: "nat \<Rightarrow> 'a matrix \<Rightarrow> 'a matrix" where
  "take_cols k X = \<lparr>ncols = min k (ncols X), rows = map (take k) (rows X)\<rparr>"

text \<open>The table without its first \<open>k\<close> columns.\<close>

definition drop_cols :: "nat \<Rightarrow> 'a matrix \<Rightarrow> 'a matrix" where
  "drop_cols k X = \<lparr>ncols = ncols X - k, rows = map (drop k) (rows X)\<rparr>"

text \<open>
  A decoded result reproduces the table \<open>X\<close>: it is of the kind asked for, has the
  table's shape and, for a labelled table, the Features' names, and each of its columns
  is the table's column up to the fidelity of the column's Feature.
\<close>

definition reproduces ::
  "(feature \<Rightarrow> raw \<Rightarrow> raw \<Rightarrow> bool) \<Rightarrow> feature list \<Rightarrow> raw matrix \<Rightarrow> bool \<Rightarrow> decoded \<Rightarrow> bool" where
  "reproduces near fs X as_dataframe D =
     (case D of
        Frame d \<Rightarrow>
          as_dataframe \<and> map fst d = map feature_name fs \<and> length d = ncols X \<and>
          list_all2 (\<lambda>f cc. list_all2 (near f) (fst cc) (snd cc)) fs
            (zip (columns X) (map snd d))
      | Array Y \<Rightarrow>
          \<not> as_dataframe \<and> ncols Y = ncols X \<and> length (rows Y) = length (rows X) \<and>
          rectangular Y \<and>
          list_all2 (\<lambda>f cc. list_all2 (near f) (fst cc) (snd cc)) fs
            (zip (columns X) (columns Y)))"

text \<open>
  The two encoded values of a Contiguous Feature can be compared: neither is NaN.
\<close>

definition comparable :: "feature list \<Rightarrow> feature \<Rightarrow> raw list \<Rightarrow> raw list \<Rightarrow> bool" where
  "comparable fs f pre_vals post_vals =
     (case index fs f of
        Inl e \<Rightarrow> False
      | Inr i \<Rightarrow>
          feature_kind f = Contiguous \<longrightarrow>
            feature_encode_value f (pre_vals ! i) False False \<noteq> NaN \<and>
            feature_encode_value f (post_vals ! i) False False \<noteq> NaN)"

subsection \<open>Features to run the Data Handler on\<close>

text \<open>
  Modelled from the spec: a Contiguous Feature over the range from \<open>lo\<close> to \<open>hi\<close>, which
  normalization maps to the unit interval, and a Categorical Feature over the labels
  \<open>ls\<close>, one-hot encoded as one cell per label and otherwise as the label's position. The
  Feature classes are not at hand; these instances only serve to evaluate the Data
  Handler on concrete input. Both return a one-dimensional array where their width is 1,
  and decode a one-dimensional array like a block of one column.
\<close>

definition raw_num :: "raw \<Rightarrow> float64" where
  "raw_num v = (case v of Num x \<Rightarrow> x | Str s \<Rightarrow> NaN)"

definition float_map :: "(real \<Rightarrow> real) \<Rightarrow> float64 \<Rightarrow> float64" where
  "float_map g x = (case x of Fin a \<Rightarrow> Fin (g a) | NaN \<Rightarrow> NaN)"

text \<open>The rows of an array, a one-dimensional array read as one column.\<close>

definition block_rows :: "'a ndarray \<Rightarrow> 'a list list" where
  "block_rows A = (case A of Arr1 xs \<Rightarrow> map (\<lambda>x. [x]) xs | Arr2 M \<Rightarrow> rows M)"

definition contiguous :: "nat \<Rightarrow> string \<Rightarrow> real \<Rightarrow> real \<Rightarrow> bool \<Rightarrow> feature" where
  "contiguous i nm lo hi m =
     \<lparr>ident = i, feature_name = nm, feature_kind = Contiguous, modifiable = m,
      feature_encode =
        (\<lambda>col nz oh.
           Arr1 (map (\<lambda>v. if nz then float_map (\<lambda>x. (x - lo) / (hi - lo)) (raw_num v)
                           else raw_num v) col)),
      feature_encode_value =
        (\<lambda>v nz oh. if nz then float_map (\<lambda>x. (x - lo) / (hi - lo)) (raw_num v)
                    else raw_num v),
      feature_decode =
        (\<lambda>A dn df.
           let vs = map (\<lambda>r. case r of [] \<Rightarrow> Num NaN
                              | x # xs \<Rightarrow>
                                  Num (if dn then float_map (\<lambda>x. x * (hi - lo) + lo) x else x))
                      (block_rows A)
           in if df then Series nm vs else NDArray vs),
      feature_encoding_width = (\<lambda>oh. 1),
      feature_allowed_change = (\<lambda>a b. m \<or> a = b),
      feature_greater_than = (\<lambda>x. {})\<rparr>"

definition label_code :: "string list \<Rightarrow> raw \<Rightarrow> float64" where
  "label_code ls v = Fin (real (length (takeWhile (\<lambda>l. Str l \<noteq> v) ls)))"

definition code_label :: "string list \<Rightarrow> nat \<Rightarrow> raw" where
  "code_label ls k = (if k < length ls then Str (ls ! k) else Str [])"

definition cell_label :: "string list \<Rightarrow> float64 \<Rightarrow> raw" where
  "cell_label ls x = (case x of Fin a \<Rightarrow> code_label ls (nat \<lfloor>a\<rfloor>) | NaN \<Rightarrow> Str [])"

definition one_hot_label :: "string list \<Rightarrow> float64 list \<Rightarrow> raw" where
  "one_hot_label ls r = code_label ls (length (takeWhile (\<lambda>x. x \<noteq> Fin 1) r))"

definition categorical :: "nat \<Rightarrow> string \<Rightarrow> string list \<Rightarrow> bool \<Rightarrow> feature" where
  "categorical i nm ls m =
     \<lparr>ident = i, feature_name = nm, feature_kind = Categorical, modifiable = m,
      feature_encode =
        (\<lambda>col nz oh.
           if oh
           then Arr2 \<lparr>ncols = length ls,
                      rows = map (\<lambda>v. map (\<lambda>l. if Str l = v then Fin 1 else Fin 0) ls) col\<rparr>
           else Arr1 (map (label_code ls) col)),
      feature_encode_value = (\<lambda>v nz oh. label_code ls v),
      feature_decode =
        (\<lambda>A dn df.
           let vs = map (\<lambda>r. if length r = length ls \<and> length ls \<noteq> 1
                              then one_hot_label ls r
                              else case r of [] \<Rightarrow> Str [] | x # xs \<Rightarrow> cell_label ls x)
                      (block_rows A)
           in if df then Series nm vs else NDArray vs),
      feature_encoding_width = (\<lambda>oh. if oh then length ls else 1),
      feature_allowed_change = (\<lambda>a b. m \<or> a = b),
      feature_greater_than =
        (\<lambda>x. {y \<in> (\<lambda>k. Fin (real k)) ` {0..<length ls}. float_gt y x})\<rparr>"

text \<open>
  Modelled from the spec: a Categorical Feature that tells a one-hot encoding from a
  column of positions by the number of dimensions of the array it is to decode: two
  dimensions are one-hot rows, one dimension is a column of positions. Its \<^verbatim>\<open>decode\<close>
  inverts what its \<^verbatim>\<open>encode\<close> returns, under both values of the flag.
\<close>

definition categorical_by_rank :: "nat \<Rightarrow> string \<Rightarrow> string list \<Rightarrow> bool \<Rightarrow> feature" where
  "categorical_by_rank i nm ls m =
     (categorical i nm ls m)
       \<lparr>feature_decode :=
          (\<lambda>A dn df.
             let vs = (case A of
                         Arr1 xs \<Rightarrow> map (cell_label ls) xs
                       | Arr2 M \<Rightarrow> map (one_hot_label ls) (rows M))
             in if df then Series nm vs else NDArray vs)\<rparr>"

text \<open>
  A Data Handler over a modifiable Contiguous Feature and an immutable Categorical one,
  with no constraint pairs.
\<close>

definition ex_age :: feature where
  "ex_age = contiguous 0 ''age'' 0 10 True"

definition ex_colour :: feature where
  "ex_colour = categorical 1 ''colour'' [''red'', ''blue''] False"

definition ex_handler :: data_handler where
  "ex_handler =
     \<lparr>features = [ex_age, ex_colour], target_feature = None, causal_inc = [],
      greater_than = []\<rparr>"

text \<open>The same, with the Categorical Feature that decodes by the number of dimensions.\<close>

definition ex_colour_by_rank :: feature where
  "ex_colour_by_rank = categorical_by_rank 1 ''colour'' [''red'', ''blue''] False"

definition ex_handler_by_rank :: data_handler where
  "ex_handler_by_rank =
     \<lparr>features = [ex_age, ex_colour_by_rank], target_feature = None, causal_inc = [],
      greater_than = []\<rparr>"

text \<open>
  Data Handlers over two Contiguous Features \<open>A\<close> and \<open>B\<close>: one with the causal pair
  \<open>(A, B)\<close>, one with the ordering pair \<open>(A, B)\<close>, and two whose pair names a Feature
  that is not in the Feature list.
\<close>

definition ex_a :: feature where
  "ex_a = contiguous 0 ''A'' 0 10 True"

definition ex_b :: feature where
  "ex_b = contiguous 1 ''B'' 0 10 True"

definition ex_absent :: feature where
  "ex_absent = contiguous 7 ''Z'' 0 10 True"

definition ex_causal :: data_handler where
  "ex_causal =
     \<lparr>features = [ex_a, ex_b], target_feature = None, causal_inc = [(ex_a, ex_b)],
      greater_than = []\<rparr>"

definition ex_ordering :: data_handler where
  "ex_ordering =
     \<lparr>features = [ex_a, ex_b], target_feature = None, causal_inc = [],
      greater_than = [(ex_a, ex_b)]\<rparr>"

definition ex_dangling :: data_handler where
  "ex_dangling =
     \<lparr>features = [ex_a], target_feature = None, causal_inc = [(ex_a, ex_absent)],
      greater_than = []\<rparr>"

definition ex_unordered :: data_handler where
  "ex_unordered =
     \<lparr>features = [ex_a], target_feature = None, causal_inc = [],
      greater_than = [(ex_a, ex_absent)]\<rparr>"

text \<open>Tables for the Data Handler over \<open>age\<close> and \<open>colour\<close>.\<close>

definition ex_table :: "raw matrix" where
  "ex_table = \<lparr>ncols = 2, rows = [[Num (Fin 5), Str ''red''], [Num (Fin 10), Str ''blue'']]\<rparr>"

definition ex_no_rows :: "raw matrix" where
  "ex_no_rows = \<lparr>ncols = 2, rows = []\<rparr>"

definition ex_wide :: "raw matrix" where
  "ex_wide = \<lparr>ncols = 3, rows = [[Num (Fin 5), Str ''red'', Num (Fin 7)]]\<rparr>"

definition ex_narrow :: "raw matrix" where
  "ex_narrow = \<lparr>ncols = 1, rows = [[Num (Fin 5)]]\<rparr>"

section \<open>Properties\<close>

lemma bind_err_Inl [simp]: "bind_err (Inl e) k = Inl e"
  by (simp add: bind_err_def)

lemma bind_err_Inr [simp]: "bind_err (Inr x) k = k x"
  by (simp add: bind_err_def)

lemmas ex_defs =
  ex_handler_def ex_age_def ex_colour_def contiguous_def categorical_def

lemmas ex2_defs =
  ex_a_def ex_b_def ex_absent_def ex_causal_def ex_ordering_def ex_dangling_def
  ex_unordered_def contiguous_def

subsection \<open>Decoding a matrix with no rows\<close>

text \<open>
  C8. Decoding a matrix with no rows returns, without an error, a table with no rows:
  labelled with the Features' names when a labelled table is asked for, and with one
  column per Feature otherwise. No Feature's \<^verbatim>\<open>decode\<close> is consulted: the result is the
  same whatever the Features' \<^verbatim>\<open>decode\<close> methods are replaced with.
\<close>

theorem decode_zero_rows:
  assumes "rows X = []"
  shows "decode h X denormalize encoded_one_hot as_dataframe
           = Inr (if as_dataframe then Frame (map (\<lambda>f. (feature_name f, [])) (features h))
                  else Array \<lparr>ncols = length (features h), rows = []\<rparr>)
         \<and> decode (h\<lparr>features := map (\<lambda>f. f\<lparr>feature_decode := g f\<rparr>) (features h)\<rparr>)
               X denormalize encoded_one_hot as_dataframe
             = decode h X denormalize encoded_one_hot as_dataframe"
  using assms by (simp add: decode_def n_features_def comp_def)

theorem decode_zero_rows_witness:
  "rows \<lparr>ncols = 3, rows = ([] :: float64 list list)\<rparr> = []
   \<and> decode ex_handler \<lparr>ncols = 3, rows = []\<rparr> True True True
       = Inr (Frame [(''age'', []), (''colour'', [])])
   \<and> decode ex_handler \<lparr>ncols = 3, rows = []\<rparr> True True False
       = Inr (Array \<lparr>ncols = 2, rows = []\<rparr>)
   \<and> decode
         (ex_handler\<lparr>features :=
            map (\<lambda>f. f\<lparr>feature_decode := \<lambda>M dn df. NDArray [Str ''unused'']\<rparr>)
              (features ex_handler)\<rparr>)
         \<lparr>ncols = 3, rows = []\<rparr> True True True
       = Inr (Frame [(''age'', []), (''colour'', [])])"
  using
    decode_zero_rows [of "\<lparr>ncols = 3, rows = []\<rparr>" ex_handler True True True
      "\<lambda>f M dn df. NDArray [Str ''unused'']"]
    decode_zero_rows [of "\<lparr>ncols = 3, rows = []\<rparr>" ex_handler True True False
      "\<lambda>f M dn df. NDArray [Str ''unused'']"]
  by (simp add: ex_defs)

subsection \<open>The per-feature check of allowed_changes\<close>

lemma feature_check_reject:
  "i < length fs \<Longrightarrow> i < length pre_vals \<Longrightarrow> i < length post_vals \<Longrightarrow>
   \<not> feature_allowed_change (fs ! i) (pre_vals ! i) (post_vals ! i) \<Longrightarrow>
   \<not> feature_check fs pre_vals post_vals"
proof (induction fs pre_vals post_vals arbitrary: i rule: feature_check.induct)
  case (1 f fs pre pre_vals pos post_vals)
  then show ?case by (cases i) auto
qed simp_all

text \<open>
  C6. If the Feature at a position that both rows reach rejects the change of its value,
  \<^verbatim>\<open>allowed_changes\<close> returns False, whatever the causal and ordering pairs are (they are
  not evaluated: no error of theirs is raised). In particular an immutable Feature,
  which by the Feature contract rejects every change, makes \<^verbatim>\<open>allowed_changes\<close> return
  False for two rows that differ at its position.
\<close>

theorem allowed_changes_feature_veto:
  assumes "i < length (features h)" and "i < length pre_vals" and "i < length post_vals"
  shows "(\<not> feature_allowed_change (features h ! i) (pre_vals ! i) (post_vals ! i)
            \<longrightarrow> allowed_changes h pre_vals post_vals = Inr False)
       \<and> (immutable_contract (features h ! i) \<and> \<not> modifiable (features h ! i)
            \<and> pre_vals ! i \<noteq> post_vals ! i
            \<longrightarrow> allowed_changes h pre_vals post_vals = Inr False)"
proof -
  have veto: "allowed_changes h pre_vals post_vals = Inr False"
    if "\<not> feature_allowed_change (features h ! i) (pre_vals ! i) (post_vals ! i)"
    using feature_check_reject [OF assms that] by (simp add: allowed_changes_def)
  show ?thesis using veto by (auto simp add: immutable_contract_def)
qed

theorem allowed_changes_feature_veto_witness:
  "(1::nat) < length (features ex_handler) \<and> (1::nat) < length [Num (Fin 1), Str ''red'']
   \<and> immutable_contract (features ex_handler ! 1) \<and> \<not> modifiable (features ex_handler ! 1)
   \<and> \<not> feature_allowed_change (features ex_handler ! 1) (Str ''red'') (Str ''blue'')
   \<and> allowed_changes ex_handler [Num (Fin 1), Str ''red''] [Num (Fin 1), Str ''blue''] = Inr False"
  using allowed_changes_feature_veto
    [of 1 ex_handler "[Num (Fin 1), Str ''red'']" "[Num (Fin 1), Str ''blue'']"]
  by (simp add: ex_defs immutable_contract_def)

lemma list_all_upt_Suc:
  "list_all P [0..<Suc m] = (P 0 \<and> list_all (\<lambda>i. P (Suc i)) [0..<m])"
proof -
  have "[0..<Suc m] = 0 # map Suc [0..<m]"
    by (simp add: upt_conv_Cons map_Suc_upt del: upt_Suc)
  then have "list_all P [0..<Suc m] = list_all P (0 # map Suc [0..<m])"
    by (simp only:)
  also have "\<dots> = (P 0 \<and> list_all (\<lambda>i. P (Suc i)) [0..<m])"
    by (simp add: list_all_iff image_Suc_atLeastLessThan [symmetric]
          del: image_Suc_atLeastLessThan)
  finally show ?thesis .
qed

lemma feature_check_zip:
  "feature_check fs pre_vals post_vals
     = list_all (\<lambda>i. feature_allowed_change (fs ! i) (pre_vals ! i) (post_vals ! i))
         [0..<min (length fs) (min (length pre_vals) (length post_vals))]"
proof (induction fs pre_vals post_vals rule: feature_check.induct)
  case (1 f fs pre pre_vals pos post_vals)
  then show ?case by (simp add: list_all_upt_Suc del: upt_Suc)
qed simp_all

text \<open>
  C10. \<^verbatim>\<open>allowed_changes\<close> does not compare the lengths of its rows with the Feature
  list: the per-feature check asks exactly the Features at the positions below the
  smallest of the three lengths, and no others. With no constraint pairs the result is
  that check's, never an error, also when a row is shorter than the Feature list.
\<close>

theorem allowed_changes_zip_truncation:
  "feature_check (features h) pre_vals post_vals
     = list_all (\<lambda>i. feature_allowed_change (features h ! i) (pre_vals ! i) (post_vals ! i))
         [0..<min (length (features h)) (min (length pre_vals) (length post_vals))]
   \<and> (causal_inc h = [] \<and> greater_than h = [] \<longrightarrow>
        allowed_changes h pre_vals post_vals
          = Inr (list_all
                   (\<lambda>i. feature_allowed_change (features h ! i) (pre_vals ! i) (post_vals ! i))
                   [0..<min (length (features h)) (min (length pre_vals) (length post_vals))]))"
  by (simp add: allowed_changes_def feature_check_zip [symmetric])

theorem allowed_changes_zip_truncation_witness:
  "causal_inc ex_handler = [] \<and> greater_than ex_handler = []
   \<and> \<not> feature_allowed_change (features ex_handler ! 1) (Str ''red'') (Str ''blue'')
   \<and> allowed_changes ex_handler [Num (Fin 1)] [Num (Fin 2), Str ''blue''] = Inr True
   \<and> allowed_changes ex_handler [Num (Fin 1), Str ''red''] [Num (Fin 2), Str ''blue''] = Inr False"
  using allowed_changes_zip_truncation [of ex_handler "[Num (Fin 1)]" "[Num (Fin 2), Str ''blue'']"]
    allowed_changes_zip_truncation
      [of ex_handler "[Num (Fin 1), Str ''red'']" "[Num (Fin 2), Str ''blue'']"]
  by (simp add: ex_defs)

subsection \<open>The causal pairs of allowed_changes\<close>

lemma encoded_pair_ready:
  assumes "causal_ready fs f pre_vals post_vals"
  obtains i where "index fs f = Inr i"
    and "encoded_pair fs f pre_vals post_vals
           = Inr (feature_encode_value f (pre_vals ! i) False False,
                  feature_encode_value f (post_vals ! i) False False)"
    and "feature_kind f \<noteq> Binary"
  using assms
  by (auto simp add: causal_ready_def encoded_pair_def getitem_def split: sum.splits)

lemma float_le_iff:
  "a \<noteq> NaN \<Longrightarrow> b \<noteq> NaN \<Longrightarrow> float_le a b = (\<not> float_gt a b)"
  by (cases a; cases b) auto

lemma causal_check_step:
  assumes c: "causal_ready fs c pre_vals post_vals"
    and e: "increased fs c pre_vals post_vals \<Longrightarrow>
              causal_ready fs e pre_vals post_vals \<and> comparable fs e pre_vals post_vals"
  shows "causal_check fs ((c, e) # ps) pre_vals post_vals
           = (if increased fs c pre_vals post_vals \<and> \<not> increased fs e pre_vals post_vals
              then Inr False else causal_check fs ps pre_vals post_vals)"
proof -
  from c obtain i where i: "index fs c = Inr i"
      "encoded_pair fs c pre_vals post_vals
         = Inr (feature_encode_value c (pre_vals ! i) False False,
                feature_encode_value c (post_vals ! i) False False)"
      "feature_kind c \<noteq> Binary"
    by (rule encoded_pair_ready)
  show ?thesis
  proof (cases "increased fs c pre_vals post_vals")
    case False
    with i show ?thesis
      by (cases "feature_kind c") (simp_all add: increased_def)
  next
    case True
    from e [OF True] have ready: "causal_ready fs e pre_vals post_vals"
      and cmp: "comparable fs e pre_vals post_vals"
      by simp_all
    from ready obtain j where j: "index fs e = Inr j"
        "encoded_pair fs e pre_vals post_vals
           = Inr (feature_encode_value e (pre_vals ! j) False False,
                  feature_encode_value e (post_vals ! j) False False)"
        "feature_kind e \<noteq> Binary"
      by (rule encoded_pair_ready)
    from True i have applied:
      "(case feature_kind c of
          Categorical \<Rightarrow> Inr (feature_encode_value c (post_vals ! i) False False
                    \<in> feature_greater_than c (feature_encode_value c (pre_vals ! i) False False))
        | Contiguous \<Rightarrow> Inr (float_gt (feature_encode_value c (post_vals ! i) False False)
                    (feature_encode_value c (pre_vals ! i) False False))
        | Binary \<Rightarrow> Inl ValueError) = Inr True"
      by (cases "feature_kind c") (simp_all add: increased_def)
    show ?thesis
    proof (cases "feature_kind e")
      case Binary
      with j show ?thesis by simp
    next
      case Categorical
      with True j show ?thesis by (simp add: i applied increased_def)
    next
      case Contiguous
      with cmp j have "float_le (feature_encode_value e (post_vals ! j) False False)
                         (feature_encode_value e (pre_vals ! j) False False)
                       = (\<not> float_gt (feature_encode_value e (post_vals ! j) False False)
                               (feature_encode_value e (pre_vals ! j) False False))"
        by (intro float_le_iff) (simp_all add: comparable_def)
      with True j Contiguous show ?thesis by (simp add: i applied increased_def)
    qed
  qed
qed

lemma causal_check_ready:
  assumes "list_all (\<lambda>p. causal_ready fs (fst p) pre_vals post_vals
             \<and> (increased fs (fst p) pre_vals post_vals
                  \<longrightarrow> causal_ready fs (snd p) pre_vals post_vals
                      \<and> comparable fs (snd p) pre_vals post_vals)) ps"
  shows "causal_check fs ps pre_vals post_vals
           = Inr (list_all (\<lambda>p. increased fs (fst p) pre_vals post_vals
                                  \<longrightarrow> increased fs (snd p) pre_vals post_vals) ps)"
  using assms
proof (induction ps)
  case Nil
  show ?case by simp
next
  case (Cons p ps)
  obtain c e where p: "p = (c, e)" by (cases p)
  from Cons.prems p have c: "causal_ready fs c pre_vals post_vals"
    and e: "increased fs c pre_vals post_vals \<Longrightarrow>
              causal_ready fs e pre_vals post_vals \<and> comparable fs e pre_vals post_vals"
    and rest: "list_all (\<lambda>p. causal_ready fs (fst p) pre_vals post_vals
             \<and> (increased fs (fst p) pre_vals post_vals
                  \<longrightarrow> causal_ready fs (snd p) pre_vals post_vals
                      \<and> comparable fs (snd p) pre_vals post_vals)) ps"
    by simp_all
  have "causal_check fs ((c, e) # ps) pre_vals post_vals
          = (if increased fs c pre_vals post_vals \<and> \<not> increased fs e pre_vals post_vals
             then Inr False else causal_check fs ps pre_vals post_vals)"
    using c e by (rule causal_check_step)
  then show ?case
    using Cons.IH [OF rest] by (simp add: p del: causal_check.simps)
qed

text \<open>
  C2, as amended. When the per-feature check passes and every causal pair can be
  evaluated (its cause is a Categorical or Contiguous Feature of the list; when the cause
  increased so is its effect, and the encoded values of a Contiguous effect are not NaN),
  \<^verbatim>\<open>allowed_changes\<close> returns False exactly when some pair's cause increased and its
  effect did not; a pair whose cause did not increase asks nothing, not even that its
  effect can be evaluated. "Increased" is the type-dependent rule of \<open>increased\<close>.
  Otherwise the result is that of the ordering check.
\<close>

theorem allowed_changes_causal:
  assumes "feature_check (features h) pre_vals post_vals"
    and "list_all (\<lambda>p. causal_ready (features h) (fst p) pre_vals post_vals
             \<and> (increased (features h) (fst p) pre_vals post_vals
                  \<longrightarrow> causal_ready (features h) (snd p) pre_vals post_vals
                      \<and> comparable (features h) (snd p) pre_vals post_vals)) (causal_inc h)"
  shows "allowed_changes h pre_vals post_vals
           = (if list_all (\<lambda>p. increased (features h) (fst p) pre_vals post_vals
                                 \<longrightarrow> increased (features h) (snd p) pre_vals post_vals)
                   (causal_inc h)
              then ordering_check (features h) (greater_than h) post_vals
              else Inr False)"
  using assms by (simp add: allowed_changes_def causal_check_ready)

theorem allowed_changes_causal_witness:
  "feature_check (features ex_causal) [Num (Fin 1), Num (Fin 1)] [Num (Fin 2), Num (Fin 1)]
   \<and> causal_ready (features ex_causal) ex_a [Num (Fin 1), Num (Fin 1)] [Num (Fin 2), Num (Fin 1)]
   \<and> causal_ready (features ex_causal) ex_b [Num (Fin 1), Num (Fin 1)] [Num (Fin 2), Num (Fin 1)]
   \<and> comparable (features ex_causal) ex_b [Num (Fin 1), Num (Fin 1)] [Num (Fin 2), Num (Fin 1)]
   \<and> increased (features ex_causal) ex_a [Num (Fin 1), Num (Fin 1)] [Num (Fin 2), Num (Fin 1)]
   \<and> \<not> increased (features ex_causal) ex_b [Num (Fin 1), Num (Fin 1)] [Num (Fin 2), Num (Fin 1)]
   \<and> allowed_changes ex_causal [Num (Fin 1), Num (Fin 1)] [Num (Fin 2), Num (Fin 1)] = Inr False"
  using allowed_changes_causal
    [of ex_causal "[Num (Fin 1), Num (Fin 1)]" "[Num (Fin 2), Num (Fin 1)]"]
  by (simp add: ex2_defs causal_ready_def comparable_def increased_def raw_num_def)

text \<open>
  The claim C2 as stated fails on NaN: the cause rises from 1 to 2, the effect goes from
  NaN to 5, which is not strictly greater, and yet \<^verbatim>\<open>allowed_changes\<close> returns True: the
  source rejects a Contiguous effect on \<^verbatim>\<open>pos_effect <= pre_effect\<close>, which is False as
  well.
\<close>

theorem nan_effect_passes:
  "feature_check (features ex_causal) [Num (Fin 1), Num NaN] [Num (Fin 2), Num (Fin 5)]
   \<and> causal_ready (features ex_causal) ex_a [Num (Fin 1), Num NaN] [Num (Fin 2), Num (Fin 5)]
   \<and> causal_ready (features ex_causal) ex_b [Num (Fin 1), Num NaN] [Num (Fin 2), Num (Fin 5)]
   \<and> increased (features ex_causal) ex_a [Num (Fin 1), Num NaN] [Num (Fin 2), Num (Fin 5)]
   \<and> \<not> increased (features ex_causal) ex_b [Num (Fin 1), Num NaN] [Num (Fin 2), Num (Fin 5)]
   \<and> allowed_changes ex_causal [Num (Fin 1), Num NaN] [Num (Fin 2), Num (Fin 5)] = Inr True"
  by (simp add: ex2_defs allowed_changes_def encoded_pair_def getitem_def raw_num_def
        causal_ready_def increased_def)

text \<open>
  The three transitions of the specification's scenario, with the causal pair \<open>(A, B)\<close>.
\<close>

lemma causal_scenarios:
  "allowed_changes ex_causal [Num (Fin 1), Num (Fin 1)] [Num (Fin 2), Num (Fin 2)] = Inr True"
  "allowed_changes ex_causal [Num (Fin 1), Num (Fin 1)] [Num (Fin 2), Num (Fin 1)] = Inr False"
  "allowed_changes ex_causal [Num (Fin 2), Num (Fin 1)] [Num (Fin 1), Num (Fin 5)] = Inr True"
  by (simp_all add: ex2_defs allowed_changes_def encoded_pair_def getitem_def raw_num_def)

subsection \<open>The ordering pairs of allowed_changes\<close>

lemma ordering_check_step:
  assumes "ordering_ready fs post_vals p"
  shows "ordering_check fs (p # ps) post_vals
           = (if exceeds fs post_vals p then Inr False else ordering_check fs ps post_vals)"
proof -
  obtain g s where p: "p = (g, s)" by (cases p)
  from assms show ?thesis
    by (auto simp add: p ordering_ready_def exceeds_def getitem_def bind_err_def
          split: sum.splits)
qed

lemma ordering_check_ready:
  assumes "list_all (ordering_ready fs post_vals) ps"
  shows "ordering_check fs ps post_vals = Inr (list_all (\<lambda>p. \<not> exceeds fs post_vals p) ps)"
  using assms
proof (induction ps)
  case Nil
  show ?case by simp
next
  case (Cons p ps)
  then have "ordering_ready fs post_vals p" and "list_all (ordering_ready fs post_vals) ps"
    by simp_all
  then show ?case
    using Cons.IH by (simp add: ordering_check_step del: ordering_check.simps)
qed

text \<open>
  C5. When the per-feature check and the causal check pass and every ordering pair can
  be evaluated, \<^verbatim>\<open>allowed_changes\<close> returns False exactly when, for some pair, the raw
  after-value of the smaller Feature strictly exceeds that of the greater one; equal
  values pass. The ordering check reads the after row only.
\<close>

theorem allowed_changes_ordering:
  assumes "feature_check (features h) pre_vals post_vals"
    and "causal_check (features h) (causal_inc h) pre_vals post_vals = Inr True"
    and "list_all (ordering_ready (features h) post_vals) (greater_than h)"
  shows "allowed_changes h pre_vals post_vals
           = Inr (list_all (\<lambda>p. \<not> exceeds (features h) post_vals p) (greater_than h))
         \<and> ordering_check (features h) (greater_than h) post_vals
           = Inr (list_all (\<lambda>p. \<not> exceeds (features h) post_vals p) (greater_than h))"
  using assms by (simp add: allowed_changes_def ordering_check_ready)

theorem allowed_changes_ordering_witness:
  "feature_check (features ex_ordering) [Num (Fin 1), Num (Fin 1)] [Num (Fin 5), Num (Fin 6)]
   \<and> causal_check (features ex_ordering) (causal_inc ex_ordering) [Num (Fin 1), Num (Fin 1)] [Num (Fin 5), Num (Fin 6)]
       = Inr True
   \<and> ordering_ready (features ex_ordering) [Num (Fin 5), Num (Fin 6)] (ex_a, ex_b)
   \<and> exceeds (features ex_ordering) [Num (Fin 5), Num (Fin 6)] (ex_a, ex_b)
   \<and> allowed_changes ex_ordering [Num (Fin 1), Num (Fin 1)] [Num (Fin 5), Num (Fin 6)] = Inr False
   \<and> ordering_ready (features ex_ordering) [Num (Fin 5), Num (Fin 5)] (ex_a, ex_b)
   \<and> \<not> exceeds (features ex_ordering) [Num (Fin 5), Num (Fin 5)] (ex_a, ex_b)
   \<and> allowed_changes ex_ordering [Num (Fin 1), Num (Fin 1)] [Num (Fin 5), Num (Fin 5)] = Inr True"
  using allowed_changes_ordering [of ex_ordering "[Num (Fin 1), Num (Fin 1)]" "[Num (Fin 5), Num (Fin 6)]"]
    allowed_changes_ordering [of ex_ordering "[Num (Fin 1), Num (Fin 1)]" "[Num (Fin 5), Num (Fin 5)]"]
  by (simp add: ex2_defs ordering_ready_def exceeds_def)

subsection \<open>Misconfigured constraint pairs\<close>

lemma causal_check_append:
  "causal_check fs (ps @ qs) pre_vals post_vals
     = bind_err (causal_check fs ps pre_vals post_vals)
         (\<lambda>ok. if ok then causal_check fs qs pre_vals post_vals else Inr False)"
proof (induction ps)
  case Nil
  show ?case by simp
next
  case (Cons p ps)
  obtain c e where p: "p = (c, e)" by (cases p)
  show ?case
    by (simp add: p Cons.IH bind_err_def split: sum.splits prod.splits kind.splits)
qed

lemma ordering_check_append:
  "ordering_check fs (ps @ qs) post_vals
     = bind_err (ordering_check fs ps post_vals)
         (\<lambda>ok. if ok then ordering_check fs qs post_vals else Inr False)"
proof (induction ps)
  case Nil
  show ?case by simp
next
  case (Cons p ps)
  obtain g s where p: "p = (g, s)" by (cases p)
  show ?case
    by (simp add: p Cons.IH bind_err_def split: sum.splits)
qed

lemma causal_check_misconfigured:
  assumes "causal_misconfigured fs pre_vals post_vals p"
  shows "isl (causal_check fs (p # ps) pre_vals post_vals)"
proof -
  obtain c e where p: "p = (c, e)" by (cases p)
  from assms show ?thesis
    by (auto simp add: p causal_misconfigured_def increased_def encoded_pair_def
          getitem_def bind_err_def not_less
          split: sum.splits kind.splits if_splits)
qed

lemma ordering_check_absent:
  assumes "isl (index fs (fst p)) \<or> isl (index fs (snd p))"
  shows "isl (ordering_check fs (p # ps) post_vals)"
proof -
  obtain g s where p: "p = (g, s)" by (cases p)
  from assms show ?thesis
    by (auto simp add: p bind_err_def split: sum.splits)
qed

text \<open>
  C4, as amended. The constraint pairs are checked where \<^verbatim>\<open>allowed_changes\<close> evaluates
  them, not before. When the per-feature check passes, \<^verbatim>\<open>allowed_changes\<close> raises an error
  at the first causal pair that is misconfigured where the evaluation looks, all earlier
  pairs having passed: its cause is not in the Feature list or is neither Categorical nor
  Contiguous, or its cause increased and its effect is not in the list or is neither
  Categorical nor Contiguous. When the causal check passes, it raises an error at the
  first ordering pair one of whose Features is not in the list, all earlier ordering
  pairs having passed.
\<close>

theorem allowed_changes_misconfigured:
  assumes "feature_check (features h) pre_vals post_vals"
  shows "(causal_inc h = ps1 @ p # ps2
          \<and> causal_check (features h) ps1 pre_vals post_vals = Inr True
          \<and> causal_misconfigured (features h) pre_vals post_vals p
          \<longrightarrow> isl (allowed_changes h pre_vals post_vals))
       \<and> (greater_than h = qs1 @ q # qs2
          \<and> causal_check (features h) (causal_inc h) pre_vals post_vals = Inr True
          \<and> ordering_check (features h) qs1 post_vals = Inr True
          \<and> (isl (index (features h) (fst q)) \<or> isl (index (features h) (snd q)))
          \<longrightarrow> isl (allowed_changes h pre_vals post_vals))"
proof (intro conjI impI)
  assume a: "causal_inc h = ps1 @ p # ps2
          \<and> causal_check (features h) ps1 pre_vals post_vals = Inr True
          \<and> causal_misconfigured (features h) pre_vals post_vals p"
  then have "isl (causal_check (features h) (p # ps2) pre_vals post_vals)"
    by (simp add: causal_check_misconfigured)
  with a have "isl (causal_check (features h) (causal_inc h) pre_vals post_vals)"
    by (simp add: causal_check_append del: causal_check.simps)
  with assms show "isl (allowed_changes h pre_vals post_vals)"
    by (cases "causal_check (features h) (causal_inc h) pre_vals post_vals")
      (simp_all add: allowed_changes_def)
next
  assume a: "greater_than h = qs1 @ q # qs2
          \<and> causal_check (features h) (causal_inc h) pre_vals post_vals = Inr True
          \<and> ordering_check (features h) qs1 post_vals = Inr True
          \<and> (isl (index (features h) (fst q)) \<or> isl (index (features h) (snd q)))"
  then have "isl (ordering_check (features h) (q # qs2) post_vals)"
    by (simp add: ordering_check_absent)
  with a have "isl (ordering_check (features h) (greater_than h) post_vals)"
    by (simp add: ordering_check_append del: ordering_check.simps)
  with assms a show "isl (allowed_changes h pre_vals post_vals)"
    by (simp add: allowed_changes_def)
qed

theorem allowed_changes_misconfigured_witness:
  "feature_check (features ex_dangling) [Num (Fin 1)] [Num (Fin 2)]
   \<and> causal_inc ex_dangling = [] @ (ex_a, ex_absent) # []
   \<and> causal_check (features ex_dangling) [] [Num (Fin 1)] [Num (Fin 2)] = Inr True
   \<and> causal_misconfigured (features ex_dangling) [Num (Fin 1)] [Num (Fin 2)] (ex_a, ex_absent)
   \<and> allowed_changes ex_dangling [Num (Fin 1)] [Num (Fin 2)] = Inl ValueError
   \<and> feature_check (features ex_unordered) [Num (Fin 1)] [Num (Fin 2)]
   \<and> greater_than ex_unordered = [] @ (ex_a, ex_absent) # []
   \<and> causal_check (features ex_unordered) (causal_inc ex_unordered) [Num (Fin 1)] [Num (Fin 2)] = Inr True
   \<and> ordering_check (features ex_unordered) [] [Num (Fin 2)] = Inr True
   \<and> isl (index (features ex_unordered) ex_absent)
   \<and> allowed_changes ex_unordered [Num (Fin 1)] [Num (Fin 2)] = Inl ValueError"
  using allowed_changes_misconfigured
      [of ex_dangling "[Num (Fin 1)]" "[Num (Fin 2)]" "[]" "(ex_a, ex_absent)" "[]"]
    allowed_changes_misconfigured
      [of ex_unordered "[Num (Fin 1)]" "[Num (Fin 2)]" _ _ _ "[]" "(ex_a, ex_absent)" "[]"]
  by (simp add: ex2_defs causal_misconfigured_def increased_def
        allowed_changes_def encoded_pair_def getitem_def raw_num_def)

text \<open>
  The claim C4 as stated fails: the effect of this causal pair is not in the Feature
  list, the cause does not increase, and \<^verbatim>\<open>allowed_changes\<close> returns True without an
  error.
\<close>

theorem misconfigured_pair_ignored:
  "causal_inc ex_dangling = [(ex_a, ex_absent)]
   \<and> index (features ex_dangling) ex_absent = Inl ValueError
   \<and> allowed_changes ex_dangling [Num (Fin 2)] [Num (Fin 1)] = Inr True"
  by (simp add: ex2_defs allowed_changes_def encoded_pair_def getitem_def raw_num_def)

subsection \<open>Columns side by side\<close>

lemma map2_append_take:
  "length as = length bs \<Longrightarrow> \<forall>a\<in>set as. length a = w \<Longrightarrow>
   map (take w) (map2 (@) as bs) = as"
  by (induction as bs rule: list_induct2) simp_all

lemma map2_append_drop:
  "length as = length bs \<Longrightarrow> \<forall>a\<in>set as. length a = w \<Longrightarrow>
   map (drop w) (map2 (@) as bs) = bs"
  by (induction as bs rule: list_induct2) simp_all

lemma slice_cols_hstack2:
  assumes "rectangular E" and "length (rows E) = length (rows R)"
  shows "slice_cols (hstack2 E R) 0 (ncols E) = E"
  using assms map2_append_take [of "rows E" "rows R" "ncols E"]
  by (simp add: slice_cols_def hstack2_def rectangular_def list_all_iff)

lemma drop_cols_hstack2:
  assumes "rectangular E" and "length (rows E) = length (rows R)"
  shows "drop_cols (ncols E) (hstack2 E R) = R"
  using assms map2_append_drop [of "rows E" "rows R" "ncols E"]
  by (simp add: drop_cols_def hstack2_def rectangular_def list_all_iff)

lemma slice_cols_shift:
  "slice_cols X (k + a) (k + b) = slice_cols (drop_cols k X) a b"
proof -
  have "min (k + b) (ncols X) - min (k + a) (ncols X)
          = min b (ncols X - k) - min a (ncols X - k)"
    by arith
  then show ?thesis
    by (simp add: slice_cols_def drop_cols_def add.commute)
qed

lemma decode_columns_shift:
  "decode_columns fs (k + c) X dn oh df = decode_columns fs c (drop_cols k X) dn oh df"
proof (induction fs arbitrary: c)
  case Nil
  show ?case by simp
next
  case (Cons f fs)
  show ?case
    using Cons.IH [of "c + feature_encoding_width f oh"] slice_cols_shift [of X k c]
    by (simp add: Let_def add.assoc)
qed

lemma rows_foldr_hstack2:
  "list_all (\<lambda>E. length (rows E) = n) Es \<Longrightarrow> length (rows Z) = n \<Longrightarrow>
   length (rows (foldr hstack2 Es Z)) = n"
  by (induction Es) (simp_all add: hstack2_def)

lemma ncols_foldr_hstack2:
  "ncols (foldr hstack2 Es Z) = sum_list (map ncols Es) + ncols Z"
  by (induction Es) (simp_all add: hstack2_def)

lemma rectangular_hstack2:
  "rectangular A \<Longrightarrow> rectangular B \<Longrightarrow> rectangular (hstack2 A B)"
  by (auto simp add: rectangular_def hstack2_def list_all_iff dest!: set_zip_leftD set_zip_rightD
        elim!: in_set_zipE)

lemma rectangular_foldr_hstack2:
  "list_all rectangular Es \<Longrightarrow> rectangular Z \<Longrightarrow> rectangular (foldr hstack2 Es Z)"
  by (induction Es) (simp_all add: rectangular_hstack2)

lemma decode_columns_hstack:
  assumes "list_all2 (\<lambda>f E. ncols E = feature_encoding_width f oh \<and> rectangular E
                        \<and> length (rows E) = n) fs Es"
    and "length (rows Z) = n"
  shows "decode_columns fs 0 (foldr hstack2 Es Z) dn oh df
           = map2 (\<lambda>f E. feature_decode f (Arr2 E) dn df) fs Es"
  using assms(1)
proof (induction fs Es rule: list_all2_induct)
  case Nil
  show ?case by simp
next
  case (Cons f fs E Es)
  let ?R = "foldr hstack2 Es Z"
  have "list_all (\<lambda>E. length (rows E) = n) Es"
    using Cons.hyps(2) by (auto simp add: list_all_iff list_all2_conv_all_nth in_set_conv_nth)
  then have "length (rows ?R) = n"
    using assms(2) by (rule rows_foldr_hstack2)
  with Cons.hyps(1) have n: "length (rows E) = length (rows ?R)"
    by simp
  have rect: "rectangular E" and w: "feature_encoding_width f oh = ncols E"
    using Cons by simp_all
  have "decode_columns fs (ncols E + 0) (hstack2 E ?R) dn oh df
          = decode_columns fs 0 ?R dn oh df"
    by (simp only: decode_columns_shift drop_cols_hstack2 [OF rect n])
  then show ?case
    using Cons.IH slice_cols_hstack2 [OF rect n] by (simp add: w)
qed

subsection \<open>The encoded matrix\<close>

lemma length_columns [simp]: "length (columns X) = ncols X"
  by (simp add: columns_def)

lemma nth_columns: "i < ncols X \<Longrightarrow> columns X ! i = map (\<lambda>r. r ! i) (rows X)"
  by (simp add: columns_def)

lemma reshape_rows_encoded:
  assumes "encodes_width f col nz oh" and "col \<noteq> []"
  shows "reshape_rows (length col) (ravel (feature_encode f col nz oh))
           = Inr (encoded_column f col nz oh)"
  using assms by (simp add: reshape_rows_def encodes_width_def encoded_column_def Let_def)

lemma encode_columns_ok:
  assumes "rows X \<noteq> []"
    and "list_all2 (\<lambda>f c. encodes_width f c nz oh) fs (drop i (columns X))"
  shows "encode_columns fs i X nz oh
           = Inr (map2 (\<lambda>f c. encoded_column f c nz oh) fs (drop i (columns X)))"
  using assms(2)
proof (induction fs arbitrary: i)
  case Nil
  show ?case by simp
next
  case (Cons f fs)
  from Cons.prems obtain c cs where d: "drop i (columns X) = c # cs"
    and c: "encodes_width f c nz oh"
    and cs: "list_all2 (\<lambda>f c. encodes_width f c nz oh) fs cs"
    by (auto simp add: list_all2_Cons1)
  from d have i: "i < ncols X"
    by (metis drop_all length_columns list.distinct(1) not_le)
  from d i have ci: "c = map (\<lambda>r. r ! i) (rows X)" and rest: "cs = drop (Suc i) (columns X)"
    using Cons_nth_drop_Suc [of i "columns X"] by (simp_all add: nth_columns)
  from ci assms(1) have len: "length c = length (rows X)" and ne: "c \<noteq> []"
    by simp_all
  have "reshape_rows (length (rows X)) (ravel (feature_encode f c nz oh))
          = Inr (encoded_column f c nz oh)"
    using reshape_rows_encoded [OF c ne] by (simp add: len)
  then show ?case
    using Cons.IH [of "Suc i"] cs i
    by (simp add: getcol_def d ci [symmetric] rest [symmetric])
qed

lemma encoded_column_shape:
  "ncols (encoded_column f c nz oh) = feature_encoding_width f oh"
  "length (rows (encoded_column f c nz oh)) = length c"
  by (simp_all add: encoded_column_def Let_def)

lemma encoded_column_rectangular:
  assumes "encodes_width f c nz oh"
  shows "rectangular (encoded_column f c nz oh)"
proof -
  have "min (length c * w - i * w) w = w" if "i < length c" for i w :: nat
  proof -
    from that have "Suc i * w \<le> length c * w"
      by (intro mult_le_mono1) simp
    then show ?thesis by simp
  qed
  with assms show ?thesis
    by (simp add: rectangular_def encoded_column_def encodes_width_def Let_def
          list_all_iff)
qed

lemma length_column: "c \<in> set (columns X) \<Longrightarrow> length c = length (rows X)"
  by (auto simp add: columns_def)

lemma concatenate_axis1_ok:
  assumes "Es \<noteq> []" and "list_all (\<lambda>E. length (rows E) = n) Es"
  shows "concatenate_axis1 Es = Inr (foldr hstack2 Es \<lparr>ncols = 0, rows = replicate n []\<rparr>)"
  using assms by (cases Es) (auto simp add: list_all_iff)

lemma encode_matrix_ok:
  assumes "rows X \<noteq> []" and "features h \<noteq> []"
    and "list_all2 (\<lambda>f c. encodes_width f c nz oh) (features h) (columns X)"
  shows "encode_matrix h X nz oh
           = Inr (foldr hstack2
                    (map2 (\<lambda>f c. encoded_column f c nz oh) (features h) (columns X))
                    \<lparr>ncols = 0, rows = replicate (length (rows X)) []\<rparr>)"
proof -
  let ?Es = "map2 (\<lambda>f c. encoded_column f c nz oh) (features h) (columns X)"
  have len: "length (features h) = length (columns X)"
    using assms(3) by (rule list_all2_lengthD)
  have enc: "encode_columns (features h) 0 X nz oh = Inr ?Es"
    using encode_columns_ok [of X nz oh "features h" 0] assms(1,3) by simp
  have ne: "?Es \<noteq> []"
    using assms(2) len by (cases "features h"; cases "columns X") simp_all
  have "list_all (\<lambda>E. length (rows E) = length (rows X)) ?Es"
    by (auto simp add: list_all_iff encoded_column_shape length_column
          dest!: set_zip_rightD)
  with ne have "concatenate_axis1 ?Es
      = Inr (foldr hstack2 ?Es \<lparr>ncols = 0, rows = replicate (length (rows X)) []\<rparr>)"
    by (rule concatenate_axis1_ok)
  with enc show ?thesis by (simp add: encode_matrix_def)
qed

lemma sum_ncols_encoded:
  "length fs = length cs \<Longrightarrow>
   sum_list (map ncols (map2 (\<lambda>f c. encoded_column f c nz oh) fs cs))
     = sum_list (map (\<lambda>f. feature_encoding_width f oh) fs)"
  by (induction fs cs rule: list_induct2) (simp_all add: encoded_column_shape)

lemma encode_matrix_shape:
  assumes "rows X \<noteq> []" and "features h \<noteq> []"
    and "list_all2 (\<lambda>f c. encodes_width f c nz oh) (features h) (columns X)"
  shows "\<exists>M. encode_matrix h X nz oh = Inr M \<and> ncols M = encoding_width h oh
           \<and> length (rows M) = length (rows X) \<and> rectangular M"
proof -
  let ?Es = "map2 (\<lambda>f c. encoded_column f c nz oh) (features h) (columns X)"
  let ?Z = "\<lparr>ncols = 0, rows = replicate (length (rows X)) []\<rparr> :: float64 matrix"
  have len: "length (features h) = length (columns X)"
    using assms(3) by (rule list_all2_lengthD)
  have enc: "encode_matrix h X nz oh = Inr (foldr hstack2 ?Es ?Z)"
    using assms by (rule encode_matrix_ok)
  have w: "ncols (foldr hstack2 ?Es ?Z) = encoding_width h oh"
    using sum_ncols_encoded [OF len] by (simp add: ncols_foldr_hstack2 encoding_width_def)
  have "list_all (\<lambda>E. length (rows E) = length (rows X)) ?Es"
    by (auto simp add: list_all_iff encoded_column_shape length_column
          dest!: set_zip_rightD)
  then have n: "length (rows (foldr hstack2 ?Es ?Z)) = length (rows X)"
    by (rule rows_foldr_hstack2) simp
  have "list_all rectangular ?Es"
    using assms(3)
    by (auto simp add: list_all_iff list_all2_conv_all_nth in_set_zip
          intro!: encoded_column_rectangular)
  then have r: "rectangular (foldr hstack2 ?Es ?Z)"
    by (rule rectangular_foldr_hstack2) (simp add: rectangular_def list_all_iff)
  from enc w n r show ?thesis by simp
qed

text \<open>
  C7. \<^verbatim>\<open>encoding_width(one_hot)\<close> is the sum of the Features' widths, a function of the
  Feature list and the flag alone. For a table with at least one row and one column, one
  column per Feature, whose Features encode at their declared width, \<^verbatim>\<open>encode\<close> returns
  a matrix with that many columns, for either value of \<^verbatim>\<open>normalize\<close>.
\<close>

theorem encoding_width_additive:
  assumes "rows X \<noteq> []" and "0 < ncols X"
    and "list_all2 (\<lambda>f c. encodes_width f c normalise one_hot) (features h) (columns X)"
  shows "encoding_width h one_hot
           = sum_list (map (\<lambda>f. feature_encoding_width f one_hot) (features h))
       \<and> (\<exists>M. encode h (Arr2 X) normalise one_hot = Inr (Arr2 M)
              \<and> ncols M = encoding_width h one_hot
              \<and> length (rows M) = length (rows X) \<and> rectangular M)"
proof -
  have "length (features h) = length (columns X)"
    using assms(3) by (rule list_all2_lengthD)
  with assms(2) have ne: "features h \<noteq> []" by auto
  from encode_matrix_shape [OF assms(1) ne assms(3)] show ?thesis
    by (auto simp add: encode_def encoding_width_def)
qed

theorem encoding_width_additive_witness:
  "rows ex_table \<noteq> [] \<and> 0 < ncols ex_table
   \<and> list_all2 (\<lambda>f c. encodes_width f c True True) (features ex_handler) (columns ex_table)
   \<and> encoding_width ex_handler True = 3
   \<and> ncols \<lparr>ncols = 3, rows = [[Fin (1 / 2), Fin 1, Fin 0], [Fin 1, Fin 0, Fin 1]]\<rparr>
       = encoding_width ex_handler True
   \<and> encode ex_handler (Arr2 ex_table) True True
       = Inr (Arr2 \<lparr>ncols = 3, rows = [[Fin (1 / 2), Fin 1, Fin 0], [Fin 1, Fin 0, Fin 1]]\<rparr>)"
proof -
  have 1: "rows ex_table \<noteq> []" by code_simp
  have 2: "0 < ncols ex_table" by code_simp
  have 3: "list_all2 (\<lambda>f c. encodes_width f c True True)
             (features ex_handler) (columns ex_table)"
    by code_simp
  have 4: "encoding_width ex_handler True = 3" by code_simp
  have 5: "encode ex_handler (Arr2 ex_table) True True
             = Inr (Arr2 \<lparr>ncols = 3,
                           rows = [[Fin (1 / 2), Fin 1, Fin 0], [Fin 1, Fin 0, Fin 1]]\<rparr>)"
    by code_simp
  show ?thesis
    using encoding_width_additive [OF 1 2 3] 1 2 3 4 5 by simp
qed

subsection \<open>Encoding a single row\<close>

lemma reshape_rows_one: "reshape_rows (Suc 0) r = Inr \<lparr>ncols = length r, rows = [r]\<rparr>"
  by (simp add: reshape_rows_def)

lemma reshape_rows_rows: "reshape_rows n xs = Inr E \<Longrightarrow> length (rows E) = n"
  by (auto simp add: reshape_rows_def Let_def split: if_splits)

lemma encode_columns_rows:
  "encode_columns fs i X nz oh = Inr Es \<Longrightarrow>
   list_all (\<lambda>E. length (rows E) = length (rows X)) Es"
proof (induction fs arbitrary: i Es)
  case Nil
  then show ?case by simp
next
  case (Cons f fs)
  then show ?case
    by (auto simp add: bind_err_def reshape_rows_rows split: sum.splits)
qed

lemma encode_matrix_rows:
  assumes "encode_matrix h X nz oh = Inr M"
  shows "length (rows M) = length (rows X)"
proof -
  from assms obtain Es where Es: "encode_columns (features h) 0 X nz oh = Inr Es"
    and M: "concatenate_axis1 Es = Inr M"
    by (auto simp add: encode_matrix_def bind_err_def split: sum.splits)
  from Es have all: "list_all (\<lambda>E. length (rows E) = length (rows X)) Es"
    by (rule encode_columns_rows)
  from M obtain E Es' where "Es = E # Es'"
    by (cases Es) simp_all
  with M all have "M = foldr hstack2 Es \<lparr>ncols = 0, rows = replicate (length (rows X)) []\<rparr>"
    by (simp split: if_splits)
  with all show ?thesis
    by (simp add: rows_foldr_hstack2)
qed

text \<open>
  C9. For every one-dimensional row and both flags, \<^verbatim>\<open>encode\<close> of the row is the first
  row of \<^verbatim>\<open>encode\<close> of the matrix that has this one row: where the matrix is encoded,
  the result has exactly one row and \<^verbatim>\<open>encode\<close> of the row returns it, a row and not a
  matrix; where the matrix raises an error, so does the row. And the row is encoded, to
  \<^verbatim>\<open>encoding_width(one_hot)\<close> cells, whenever there is at least one Feature and the
  Features encode its cells at their declared width.
\<close>

theorem encode_single_row:
  "(\<forall>M. encode h (Arr2 \<lparr>ncols = length r, rows = [r]\<rparr>) normalise one_hot = Inr (Arr2 M)
        \<longrightarrow> (\<exists>row. rows M = [row]
                   \<and> encode h (Arr1 r) normalise one_hot = Inr (Arr1 row)))
   \<and> (\<forall>e. encode h (Arr2 \<lparr>ncols = length r, rows = [r]\<rparr>) normalise one_hot = Inl e
        \<longrightarrow> encode h (Arr1 r) normalise one_hot = Inl e)
   \<and> (features h \<noteq> []
       \<and> list_all2 (\<lambda>f c. encodes_width f c normalise one_hot) (features h)
           (columns \<lparr>ncols = length r, rows = [r]\<rparr>)
        \<longrightarrow> (\<exists>row. encode h (Arr1 r) normalise one_hot = Inr (Arr1 row)
                   \<and> length row = encoding_width h one_hot))"
proof (intro conjI allI impI)
  fix M
  assume "encode h (Arr2 \<lparr>ncols = length r, rows = [r]\<rparr>) normalise one_hot = Inr (Arr2 M)"
  then have M: "encode_matrix h \<lparr>ncols = length r, rows = [r]\<rparr> normalise one_hot = Inr M"
    by (auto simp add: encode_def bind_err_def split: sum.splits)
  then have "length (rows M) = 1"
    using encode_matrix_rows [OF M] by simp
  then obtain row where row: "rows M = [row]"
    by (cases "rows M") auto
  with M have "encode h (Arr1 r) normalise one_hot = Inr (Arr1 row)"
    by (simp add: encode_def reshape_rows_one getitem_def)
  with row show "\<exists>row. rows M = [row] \<and> encode h (Arr1 r) normalise one_hot = Inr (Arr1 row)"
    by simp
next
  fix e
  assume "encode h (Arr2 \<lparr>ncols = length r, rows = [r]\<rparr>) normalise one_hot = Inl e"
  then show "encode h (Arr1 r) normalise one_hot = Inl e"
    by (auto simp add: encode_def reshape_rows_one bind_err_def split: sum.splits)
next
  assume a: "features h \<noteq> []
       \<and> list_all2 (\<lambda>f c. encodes_width f c normalise one_hot) (features h)
           (columns \<lparr>ncols = length r, rows = [r]\<rparr>)"
  have "rows \<lparr>ncols = length r, rows = [r]\<rparr> \<noteq> []" by simp
  from encode_matrix_shape [OF this, of h normalise one_hot] a
  obtain M where M: "encode_matrix h \<lparr>ncols = length r, rows = [r]\<rparr> normalise one_hot = Inr M"
    and w: "ncols M = encoding_width h one_hot" and n: "length (rows M) = 1"
    and rect: "rectangular M"
    by auto
  from n obtain row where row: "rows M = [row]"
    by (cases "rows M") auto
  with rect w have "length row = encoding_width h one_hot"
    by (simp add: rectangular_def)
  moreover from M row have "encode h (Arr1 r) normalise one_hot = Inr (Arr1 row)"
    by (simp add: encode_def reshape_rows_one getitem_def)
  ultimately show "\<exists>row. encode h (Arr1 r) normalise one_hot = Inr (Arr1 row)
                     \<and> length row = encoding_width h one_hot"
    by simp
qed

theorem encode_single_row_witness:
  "features ex_handler \<noteq> []
   \<and> list_all2 (\<lambda>f c. encodes_width f c True True) (features ex_handler)
       (columns \<lparr>ncols = length [Num (Fin 5), Str ''red''], rows = [[Num (Fin 5), Str ''red'']]\<rparr>)
   \<and> encode ex_handler (Arr2 \<lparr>ncols = 2, rows = [[Num (Fin 5), Str ''red'']]\<rparr>) True True
       = Inr (Arr2 \<lparr>ncols = 3, rows = [[Fin (1 / 2), Fin 1, Fin 0]]\<rparr>)
   \<and> encode ex_handler (Arr1 [Num (Fin 5), Str ''red'']) True True
       = Inr (Arr1 [Fin (1 / 2), Fin 1, Fin 0])
   \<and> encode ex_handler (Arr1 [Num (Fin 5), Str ''red'']) True False
       = Inr (Arr1 [Fin (1 / 2), Fin 0])
   \<and> encode ex_handler (Arr1 [Num (Fin 5), Str ''red'']) False True
       = Inr (Arr1 [Fin 5, Fin 1, Fin 0])
   \<and> encode ex_handler (Arr1 [Num (Fin 5), Str ''red'']) False False
       = Inr (Arr1 [Fin 5, Fin 0])
   \<and> encode ex_handler (Arr2 \<lparr>ncols = 1, rows = [[Num (Fin 5)]]\<rparr>) True True = Inl IndexError
   \<and> encode ex_handler (Arr1 [Num (Fin 5)]) True True = Inl IndexError"
proof -
  let ?r = "[Num (Fin 5), Str ''red'']"
  have 1: "features ex_handler \<noteq> []" by code_simp
  have 2: "list_all2 (\<lambda>f c. encodes_width f c True True) (features ex_handler)
             (columns \<lparr>ncols = length ?r, rows = [?r]\<rparr>)"
    by code_simp
  have tt: "encode ex_handler (Arr2 \<lparr>ncols = length ?r, rows = [?r]\<rparr>) True True
              = Inr (Arr2 \<lparr>ncols = 3, rows = [[Fin (1 / 2), Fin 1, Fin 0]]\<rparr>)"
    by code_simp
  have tf: "encode ex_handler (Arr2 \<lparr>ncols = length ?r, rows = [?r]\<rparr>) True False
              = Inr (Arr2 \<lparr>ncols = 2, rows = [[Fin (1 / 2), Fin 0]]\<rparr>)"
    by code_simp
  have ft: "encode ex_handler (Arr2 \<lparr>ncols = length ?r, rows = [?r]\<rparr>) False True
              = Inr (Arr2 \<lparr>ncols = 3, rows = [[Fin 5, Fin 1, Fin 0]]\<rparr>)"
    by code_simp
  have ff: "encode ex_handler (Arr2 \<lparr>ncols = length ?r, rows = [?r]\<rparr>) False False
              = Inr (Arr2 \<lparr>ncols = 2, rows = [[Fin 5, Fin 0]]\<rparr>)"
    by code_simp
  have err: "encode ex_handler (Arr2 \<lparr>ncols = length [Num (Fin 5)], rows = [[Num (Fin 5)]]\<rparr>)
               True True = Inl IndexError"
    by code_simp
  show ?thesis
    using encode_single_row [of ex_handler ?r True True]
      encode_single_row [of ex_handler ?r True False]
      encode_single_row [of ex_handler ?r False True]
      encode_single_row [of ex_handler ?r False False]
      encode_single_row [of ex_handler "[Num (Fin 5)]" True True]
      1 2 tt tf ft ff err
    by (simp add: numeral_2_eq_2)
qed

subsection \<open>A table with too few or too many columns\<close>

lemma encode_columns_short:
  "i \<le> ncols X \<Longrightarrow> ncols X < i + length fs \<Longrightarrow> isl (encode_columns fs i X nz oh)"
proof (induction fs arbitrary: i)
  case Nil
  then show ?case by simp
next
  case (Cons f fs)
  show ?case
  proof (cases "i < ncols X")
    case False
    then show ?thesis by (simp add: getcol_def)
  next
    case True
    with Cons.prems have "isl (encode_columns fs (Suc i) X nz oh)"
      by (intro Cons.IH) simp_all
    then show ?thesis
      by (auto simp add: getcol_def bind_err_def split: sum.splits)
  qed
qed

lemma encode_columns_take_cols:
  "i + length fs \<le> k \<Longrightarrow>
   encode_columns fs i (take_cols k X) nz oh = encode_columns fs i X nz oh"
proof (induction fs arbitrary: i)
  case Nil
  show ?case by simp
next
  case (Cons f fs)
  then have i: "i < k" and rest: "Suc i + length fs \<le> k" by simp_all
  from i have "getcol (take_cols k X) i = getcol X i"
    by (simp add: getcol_def take_cols_def)
  then show ?case
    using Cons.IH [OF rest] by (simp add: take_cols_def)
qed

text \<open>
  C3, as amended. \<^verbatim>\<open>encode\<close> fails with an error on a table that has fewer columns
  than there are Features. It does not look at the columns beyond the Feature list: the
  result is that of the table cut to its first \<^verbatim>\<open>len(features)\<close> columns.
\<close>

theorem encode_column_mismatch:
  "(ncols X < length (features h) \<longrightarrow> isl (encode h (Arr2 X) normalise one_hot))
   \<and> encode h (Arr2 (take_cols (length (features h)) X)) normalise one_hot
       = encode h (Arr2 X) normalise one_hot"
proof (intro conjI impI)
  assume "ncols X < length (features h)"
  then have "isl (encode_columns (features h) 0 X normalise one_hot)"
    by (intro encode_columns_short) simp_all
  then show "isl (encode h (Arr2 X) normalise one_hot)"
    by (auto simp add: encode_def encode_matrix_def bind_err_def split: sum.splits)
next
  show "encode h (Arr2 (take_cols (length (features h)) X)) normalise one_hot
          = encode h (Arr2 X) normalise one_hot"
    using encode_columns_take_cols [of 0 "features h" "length (features h)" X normalise one_hot]
    by (simp add: encode_def encode_matrix_def)
qed

theorem encode_column_mismatch_witness:
  "ncols ex_narrow < length (features ex_handler)
   \<and> isl (encode ex_handler (Arr2 ex_narrow) True True)
   \<and> encode ex_handler (Arr2 ex_narrow) True True = Inl IndexError
   \<and> encode ex_handler (Arr2 (take_cols 2 ex_wide)) True True
       = encode ex_handler (Arr2 ex_wide) True True"
proof -
  have 1: "ncols ex_narrow < length (features ex_handler)" by code_simp
  have 2: "encode ex_handler (Arr2 ex_narrow) True True = Inl IndexError" by code_simp
  have 3: "length (features ex_handler) = 2" by code_simp
  show ?thesis
    using encode_column_mismatch [of ex_narrow ex_handler True True]
      encode_column_mismatch [of ex_wide ex_handler True True] 1 2 3
    by simp
qed

text \<open>
  The claim C3 as stated fails: a table of three columns is encoded by two Features
  without an error, and the third column is left out.
\<close>

theorem encode_extra_column_ignored:
  "ncols ex_wide \<noteq> length (features ex_handler)
   \<and> encode ex_handler (Arr2 ex_wide) True True
       = Inr (Arr2 \<lparr>ncols = 3, rows = [[Fin (1 / 2), Fin 1, Fin 0]]\<rparr>)"
  by code_simp

subsection \<open>Decoding what was encoded\<close>

lemma feature_inverts_block:
  assumes "feature_inverts near f c nz oh df"
  shows "c \<noteq> []" and "encodes_width f c nz oh"
    and "\<exists>vs. feature_decode f (Arr2 (encoded_column f c nz oh)) nz df
                 = (if df then Series (feature_name f) vs else NDArray vs)
               \<and> list_all2 (near f) c vs"
proof -
  let ?flat = "ravel (feature_encode f c nz oh)"
  from assms obtain E where E: "reshape_rows (length c) ?flat = Inr E"
    and w: "ncols E = feature_encoding_width f oh"
    and dec: "case feature_decode f (Arr2 E) nz df of
                Series l vs \<Rightarrow> df \<and> l = feature_name f \<and> list_all2 (near f) c vs
              | NDArray vs \<Rightarrow> \<not> df \<and> list_all2 (near f) c vs"
    by (auto simp add: feature_inverts_def split: sum.splits)
  from E have n: "length c \<noteq> 0" and m: "length ?flat mod length c = 0"
    and d: "ncols E = length ?flat div length c"
    by (auto simp add: reshape_rows_def Let_def split: if_splits)
  from n show ne: "c \<noteq> []" by simp
  have "length c * (length ?flat div length c) + length ?flat mod length c = length ?flat"
    by (rule mult_div_mod_eq)
  with m d w show width: "encodes_width f c nz oh"
    by (simp add: encodes_width_def)
  from reshape_rows_encoded [OF width ne] E have "E = encoded_column f c nz oh"
    by simp
  with dec show "\<exists>vs. feature_decode f (Arr2 (encoded_column f c nz oh)) nz df
                 = (if df then Series (feature_name f) vs else NDArray vs)
               \<and> list_all2 (near f) c vs"
    by (cases "feature_decode f (Arr2 E) nz df") auto
qed

lemma decoded_columns:
  "list_all2 (\<lambda>f c. feature_inverts near f c nz oh df) fs cs \<Longrightarrow>
   \<exists>vss. map2 (\<lambda>f E. feature_decode f (Arr2 E) nz df) fs
            (map2 (\<lambda>f c. encoded_column f c nz oh) fs cs)
          = map2 (\<lambda>f vs. if df then Series (feature_name f) vs else NDArray vs) fs vss
        \<and> list_all2 (\<lambda>c vs. length vs = length c) cs vss
        \<and> list_all2 (\<lambda>f cc. list_all2 (near f) (fst cc) (snd cc)) fs (zip cs vss)"
proof (induction fs cs rule: list_all2_induct)
  case Nil
  show ?case by simp
next
  case (Cons f fs c cs)
  from feature_inverts_block(3) [OF Cons.hyps(1)] obtain vs
    where vs: "feature_decode f (Arr2 (encoded_column f c nz oh)) nz df
                 = (if df then Series (feature_name f) vs else NDArray vs)"
      and near: "list_all2 (near f) c vs"
    by auto
  from Cons.IH obtain vss
    where vss: "map2 (\<lambda>f E. feature_decode f (Arr2 E) nz df) fs
                  (map2 (\<lambda>f c. encoded_column f c nz oh) fs cs)
                = map2 (\<lambda>f vs. if df then Series (feature_name f) vs else NDArray vs) fs vss"
      and len: "list_all2 (\<lambda>c vs. length vs = length c) cs vss"
      and rel: "list_all2 (\<lambda>f cc. list_all2 (near f) (fst cc) (snd cc)) fs (zip cs vss)"
    by auto
  from near have "length vs = length c"
    by (simp add: list_all2_lengthD)
  with vs near vss len rel show ?case
    by (intro exI [of _ "vs # vss"]) simp
qed

lemma encoded_columns_shape:
  "list_all2 (\<lambda>f c. encodes_width f c nz oh \<and> length c = n) fs cs \<Longrightarrow>
   list_all2 (\<lambda>f E. ncols E = feature_encoding_width f oh \<and> rectangular E
                \<and> length (rows E) = n)
     fs (map2 (\<lambda>f c. encoded_column f c nz oh) fs cs)"
  by (induction fs cs rule: list_all2_induct)
    (simp_all add: encoded_column_shape encoded_column_rectangular)

lemma series_columns_ok:
  "length fs = length cs \<Longrightarrow>
   series_columns (map2 (\<lambda>f c. Series (feature_name f) c) fs cs)
     = Inr (zip (map feature_name fs) cs)"
  by (induction fs cs rule: list_induct2) simp_all

lemma singleton_rows: "map (\<lambda>i. take 1 (drop i c)) [0..<length c] = map (\<lambda>v. [v]) c"
proof -
  have "map (\<lambda>i. take 1 (drop i c)) [0..<length c] = map (\<lambda>i. [c ! i]) [0..<length c]"
    by (intro map_cong refl) (simp add: take_Suc_conv_app_nth)
  also have "\<dots> = map (\<lambda>v. [v]) (map ((!) c) [0..<length c])"
    by (simp add: comp_def)
  finally show ?thesis by (simp only: map_nth)
qed

lemma reshape_rows_column:
  "c \<noteq> [] \<Longrightarrow> reshape_rows (length c) c = Inr \<lparr>ncols = 1, rows = map (\<lambda>v. [v]) c\<rparr>"
  using singleton_rows [of c] by (simp add: reshape_rows_def)

lemma reshape_all_ok:
  assumes "0 < n"
  shows "length fs = length cs \<Longrightarrow> \<forall>c\<in>set cs. length c = n \<Longrightarrow>
   reshape_all n (map2 (\<lambda>f c. NDArray c) fs cs)
     = Inr (map (\<lambda>c. \<lparr>ncols = 1, rows = map (\<lambda>v. [v]) c\<rparr>) cs)"
proof (induction fs cs rule: list_induct2)
  case Nil
  show ?case by simp
next
  case (Cons f fs c cs)
  then have "c \<noteq> []" and "length c = n" using assms by auto
  then have "reshape_rows n c = Inr \<lparr>ncols = 1, rows = map (\<lambda>v. [v]) c\<rparr>"
    using reshape_rows_column [of c] by simp
  with Cons show ?case by simp
qed

lemma nth_hstack_column:
  "length c = length rs \<Longrightarrow>
   map (\<lambda>r. r ! 0) (map2 (@) (map (\<lambda>v. [v]) c) rs) = c
   \<and> map (\<lambda>r. r ! Suc i) (map2 (@) (map (\<lambda>v. [v]) c) rs) = map (\<lambda>r. r ! i) rs"
  by (induction c rs rule: list_induct2) simp_all

lemma columns_hstack_column:
  assumes "length c = length (rows R)"
  shows "columns (hstack2 \<lparr>ncols = 1, rows = map (\<lambda>v. [v]) c\<rparr> R) = c # columns R"
  using nth_hstack_column [OF assms]
  by (simp add: columns_def hstack2_def map_upt_Suc del: upt_Suc)

lemma columns_foldr_hstack2:
  assumes "\<forall>c\<in>set cs. length c = n"
  shows "columns (foldr hstack2 (map (\<lambda>c. \<lparr>ncols = 1, rows = map (\<lambda>v. [v]) c\<rparr>) cs)
                    \<lparr>ncols = 0, rows = replicate n []\<rparr>) = cs"
  using assms
proof (induction cs)
  case Nil
  show ?case by (simp add: columns_def)
next
  case (Cons c cs)
  let ?R = "foldr hstack2 (map (\<lambda>c. \<lparr>ncols = 1, rows = map (\<lambda>v. [v]) c\<rparr>) cs)
              \<lparr>ncols = 0, rows = replicate n []\<rparr>"
  have "list_all (\<lambda>E. length (rows E) = n) (map (\<lambda>c. \<lparr>ncols = 1, rows = map (\<lambda>v. [v]) c\<rparr>) cs)"
    using Cons.prems by (simp add: list_all_iff)
  then have "length (rows ?R) = n"
    by (rule rows_foldr_hstack2) simp
  with Cons.prems have "length c = length (rows ?R)" by simp
  then have "columns (hstack2 \<lparr>ncols = 1, rows = map (\<lambda>v. [v]) c\<rparr> ?R) = c # columns ?R"
    by (rule columns_hstack_column)
  with Cons show ?case by simp
qed

lemma encode_empty_fails:
  assumes "rows X = [] \<or> features h = []"
  shows "isl (encode h (Arr2 X) nz oh)"
proof (cases "features h")
  case Nil
  then show ?thesis by (simp add: encode_def encode_matrix_def)
next
  case (Cons f fs)
  with assms have "rows X = []" by simp
  with Cons show ?thesis
    by (simp add: encode_def encode_matrix_def getcol_def reshape_rows_def)
qed

text \<open>
  C1, as amended. For a Data Handler with at least one Feature and a table with at least
  one row and one column per Feature, and for every combination of the flags: if each
  Feature keeps to its contract on its column (the encoding, reshaped to one row per
  sample as the Data Handler passes it on, has the declared width and decodes under the
  same flags to the column, up to the Feature's own fidelity), then decoding the encoded
  table with the same flags reproduces the table: a result of the table's shape, under
  the Features' names when a labelled table is asked for, each column equal to the
  table's up to its Feature's fidelity. On a table with no rows, and for a Data Handler
  with no Features, \<^verbatim>\<open>encode\<close> raises an error.
\<close>

theorem decode_encode_roundtrip:
  "(rows X \<noteq> [] \<and> features h \<noteq> []
    \<and> list_all2 (\<lambda>f c. feature_inverts near f c normalise one_hot as_dataframe)
        (features h) (columns X)
    \<longrightarrow> (\<exists>D. bind_err (encode h (Arr2 X) normalise one_hot)
                 (\<lambda>E. case E of Arr2 M \<Rightarrow> decode h M normalise one_hot as_dataframe
                                | Arr1 r \<Rightarrow> Inl TypeError) = Inr D
             \<and> reproduces near (features h) X as_dataframe D))
   \<and> (rows X = [] \<or> features h = [] \<longrightarrow> isl (encode h (Arr2 X) normalise one_hot))"
proof (intro conjI impI)
  assume "rows X = [] \<or> features h = []"
  then show "isl (encode h (Arr2 X) normalise one_hot)"
    by (rule encode_empty_fails)
next
  assume a: "rows X \<noteq> [] \<and> features h \<noteq> []
    \<and> list_all2 (\<lambda>f c. feature_inverts near f c normalise one_hot as_dataframe)
        (features h) (columns X)"
  let ?fs = "features h" and ?cs = "columns X" and ?n = "length (rows X)"
  let ?Es = "map2 (\<lambda>f c. encoded_column f c normalise one_hot) ?fs ?cs"
  let ?Z = "\<lparr>ncols = 0, rows = replicate ?n []\<rparr> :: float64 matrix"
  let ?M = "foldr hstack2 ?Es ?Z"
  from a have rows: "rows X \<noteq> []" and fs: "?fs \<noteq> []"
    and inv: "list_all2 (\<lambda>f c. feature_inverts near f c normalise one_hot as_dataframe) ?fs ?cs"
    by simp_all
  have len: "length ?fs = length ?cs"
    using inv by (rule list_all2_lengthD)
  have cols: "\<forall>c\<in>set ?cs. length c = ?n"
    by (simp add: length_column)
  have width: "list_all2 (\<lambda>f c. encodes_width f c normalise one_hot \<and> length c = ?n) ?fs ?cs"
    using inv cols
    by (auto simp add: list_all2_conv_all_nth intro: feature_inverts_block(2))
  then have width': "list_all2 (\<lambda>f c. encodes_width f c normalise one_hot) ?fs ?cs"
    by (rule list_all2_mono) simp
  have enc: "encode h (Arr2 X) normalise one_hot = Inr (Arr2 ?M)"
    using encode_matrix_ok [OF rows fs width'] by (simp add: encode_def)
  have shape: "list_all2 (\<lambda>f E. ncols E = feature_encoding_width f one_hot \<and> rectangular E
                          \<and> length (rows E) = ?n) ?fs ?Es"
    using width by (rule encoded_columns_shape)
  then have "list_all (\<lambda>E. length (rows E) = ?n) ?Es"
    by (auto simp add: list_all_iff list_all2_conv_all_nth in_set_conv_nth)
  then have n: "length (rows ?M) = ?n"
    by (rule rows_foldr_hstack2) simp
  from decoded_columns [OF inv] obtain vss
    where vss: "map2 (\<lambda>f E. feature_decode f (Arr2 E) normalise as_dataframe) ?fs ?Es
                = map2 (\<lambda>f vs. if as_dataframe then Series (feature_name f) vs else NDArray vs)
                    ?fs vss"
      and lens: "list_all2 (\<lambda>c vs. length vs = length c) ?cs vss"
      and rel: "list_all2 (\<lambda>f cc. list_all2 (near f) (fst cc) (snd cc)) ?fs (zip ?cs vss)"
    by auto
  have len': "length vss = length ?cs"
    using lens by (metis list_all2_lengthD)
  have vcols: "\<forall>vs\<in>set vss. length vs = ?n"
  proof
    fix vs assume "vs \<in> set vss"
    then obtain i where i: "i < length vss" and vs: "vs = vss ! i"
      by (auto simp add: in_set_conv_nth)
    from lens i have "length (vss ! i) = length (?cs ! i)"
      by (simp add: list_all2_conv_all_nth)
    moreover from i len' have "?cs ! i \<in> set ?cs"
      by (intro nth_mem) simp
    ultimately show "length vs = ?n"
      using cols vs by simp
  qed
  have dec: "decode_columns ?fs 0 ?M normalise one_hot as_dataframe
      = map2 (\<lambda>f vs. if as_dataframe then Series (feature_name f) vs else NDArray vs) ?fs vss"
    using decode_columns_hstack [OF shape, of ?Z normalise as_dataframe] vss
    by simp
  have ne: "vss \<noteq> []"
    using fs len len' by (metis length_0_conv)
  show "\<exists>D. bind_err (encode h (Arr2 X) normalise one_hot)
                 (\<lambda>E. case E of Arr2 M \<Rightarrow> decode h M normalise one_hot as_dataframe
                                | Arr1 r \<Rightarrow> Inl TypeError) = Inr D
             \<and> reproduces near (features h) X as_dataframe D"
  proof (cases as_dataframe)
    case True
    have "pd_concat_axis1 (map2 (\<lambda>f vs. Series (feature_name f) vs) ?fs vss)
            = Inr (zip (map feature_name ?fs) vss)"
      using fs ne len len' by (simp add: pd_concat_axis1_def series_columns_ok)
    with True enc dec n rows have
      "bind_err (encode h (Arr2 X) normalise one_hot)
         (\<lambda>E. case E of Arr2 M \<Rightarrow> decode h M normalise one_hot as_dataframe
                        | Arr1 r \<Rightarrow> Inl TypeError)
       = Inr (Frame (zip (map feature_name ?fs) vss))"
      by (simp add: decode_def)
    moreover have "reproduces near ?fs X as_dataframe (Frame (zip (map feature_name ?fs) vss))"
      using True rel len len' by (simp add: reproduces_def)
    ultimately show ?thesis by blast
  next
    case False
    let ?Y = "foldr hstack2 (map (\<lambda>c. \<lparr>ncols = 1, rows = map (\<lambda>v. [v]) c\<rparr>) vss)
                \<lparr>ncols = 0, rows = replicate ?n []\<rparr>"
    have "reshape_all ?n (map2 (\<lambda>f c. NDArray c) ?fs vss)
            = Inr (map (\<lambda>c. \<lparr>ncols = 1, rows = map (\<lambda>v. [v]) c\<rparr>) vss)"
      using rows len len' vcols by (intro reshape_all_ok) simp_all
    moreover have "concatenate_axis1 (map (\<lambda>c. \<lparr>ncols = 1, rows = map (\<lambda>v. [v]) c\<rparr>) vss)
            = Inr ?Y"
      using ne vcols by (intro concatenate_axis1_ok) (simp_all add: list_all_iff)
    ultimately have
      "bind_err (encode h (Arr2 X) normalise one_hot)
         (\<lambda>E. case E of Arr2 M \<Rightarrow> decode h M normalise one_hot as_dataframe
                        | Arr1 r \<Rightarrow> Inl TypeError)
       = Inr (Array ?Y)"
      using False enc dec n rows by (simp add: decode_def)
    moreover have "reproduces near ?fs X as_dataframe (Array ?Y)"
    proof -
      have c: "columns ?Y = vss"
        using vcols by (rule columns_foldr_hstack2)
      have w: "ncols ?Y = ncols X"
        using len' by (simp add: ncols_foldr_hstack2 comp_def sum_list_triv)
      have r: "length (rows ?Y) = ?n"
        using vcols by (intro rows_foldr_hstack2) (simp_all add: list_all_iff)
      have "list_all rectangular (map (\<lambda>c. \<lparr>ncols = 1, rows = map (\<lambda>v. [v]) c\<rparr>) vss)"
        by (simp add: list_all_iff rectangular_def)
      then have "rectangular ?Y"
        by (rule rectangular_foldr_hstack2) (simp add: rectangular_def list_all_iff)
      with c w r rel False show ?thesis
        by (simp add: reproduces_def)
    qed
    ultimately show ?thesis by blast
  qed
qed

theorem decode_encode_roundtrip_witness:
  "rows ex_table \<noteq> [] \<and> features ex_handler \<noteq> []
   \<and> list_all2 (\<lambda>f c. feature_inverts (fidelity (1 / 1000)) f c True True True)
       (features ex_handler) (columns ex_table)
   \<and> list_all2 (\<lambda>f c. feature_inverts (fidelity (1 / 1000)) f c True False True)
       (features ex_handler) (columns ex_table)
   \<and> list_all2 (\<lambda>f c. feature_inverts (fidelity (1 / 1000)) f c False True True)
       (features ex_handler) (columns ex_table)
   \<and> list_all2 (\<lambda>f c. feature_inverts (fidelity (1 / 1000)) f c False False True)
       (features ex_handler) (columns ex_table)
   \<and> list_all2 (\<lambda>f c. feature_inverts (fidelity (1 / 1000)) f c False False False)
       (features ex_handler) (columns ex_table)
   \<and> bind_err (encode ex_handler (Arr2 ex_table) True True)
         (\<lambda>E. case E of Arr2 M \<Rightarrow> decode ex_handler M True True True
                        | Arr1 r \<Rightarrow> Inl TypeError)
       = Inr (Frame [(''age'', [Num (Fin 5), Num (Fin 10)]), (''colour'', [Str ''red'', Str ''blue''])])
   \<and> bind_err (encode ex_handler (Arr2 ex_table) True False)
         (\<lambda>E. case E of Arr2 M \<Rightarrow> decode ex_handler M True False True
                        | Arr1 r \<Rightarrow> Inl TypeError)
       = Inr (Frame [(''age'', [Num (Fin 5), Num (Fin 10)]), (''colour'', [Str ''red'', Str ''blue''])])
   \<and> bind_err (encode ex_handler (Arr2 ex_table) False True)
         (\<lambda>E. case E of Arr2 M \<Rightarrow> decode ex_handler M False True True
                        | Arr1 r \<Rightarrow> Inl TypeError)
       = Inr (Frame [(''age'', [Num (Fin 5), Num (Fin 10)]), (''colour'', [Str ''red'', Str ''blue''])])
   \<and> bind_err (encode ex_handler (Arr2 ex_table) False False)
         (\<lambda>E. case E of Arr2 M \<Rightarrow> decode ex_handler M False False True
                        | Arr1 r \<Rightarrow> Inl TypeError)
       = Inr (Frame [(''age'', [Num (Fin 5), Num (Fin 10)]), (''colour'', [Str ''red'', Str ''blue''])])
   \<and> bind_err (encode ex_handler (Arr2 ex_table) False False)
         (\<lambda>E. case E of Arr2 M \<Rightarrow> decode ex_handler M False False False
                        | Arr1 r \<Rightarrow> Inl TypeError)
       = Inr (Array ex_table)
   \<and> reproduces (fidelity (1 / 1000)) (features ex_handler) ex_table True
       (Frame [(''age'', [Num (Fin 5), Num (Fin 10)]), (''colour'', [Str ''red'', Str ''blue''])])
   \<and> reproduces (fidelity (1 / 1000)) (features ex_handler) ex_table False (Array ex_table)"
proof -
  have r: "rows ex_table \<noteq> []" by code_simp
  have f: "features ex_handler \<noteq> []" by code_simp
  have h0: "list_all2 (\<lambda>f c. feature_inverts (fidelity (1 / 1000)) f c True True True)
       (features ex_handler) (columns ex_table)"
    by code_simp
  have e0: "bind_err (encode ex_handler (Arr2 ex_table) True True)
         (\<lambda>E. case E of Arr2 M \<Rightarrow> decode ex_handler M True True True
                        | Arr1 r \<Rightarrow> Inl TypeError)
       = Inr (Frame [(''age'', [Num (Fin 5), Num (Fin 10)]), (''colour'', [Str ''red'', Str ''blue''])])"
    by code_simp
  have h1: "list_all2 (\<lambda>f c. feature_inverts (fidelity (1 / 1000)) f c True False True)
       (features ex_handler) (columns ex_table)"
    by code_simp
  have e1: "bind_err (encode ex_handler (Arr2 ex_table) True False)
         (\<lambda>E. case E of Arr2 M \<Rightarrow> decode ex_handler M True False True
                        | Arr1 r \<Rightarrow> Inl TypeError)
       = Inr (Frame [(''age'', [Num (Fin 5), Num (Fin 10)]), (''colour'', [Str ''red'', Str ''blue''])])"
    by code_simp
  have h2: "list_all2 (\<lambda>f c. feature_inverts (fidelity (1 / 1000)) f c False True True)
       (features ex_handler) (columns ex_table)"
    by code_simp
  have e2: "bind_err (encode ex_handler (Arr2 ex_table) False True)
         (\<lambda>E. case E of Arr2 M \<Rightarrow> decode ex_handler M False True True
                        | Arr1 r \<Rightarrow> Inl TypeError)
       = Inr (Frame [(''age'', [Num (Fin 5), Num (Fin 10)]), (''colour'', [Str ''red'', Str ''blue''])])"
    by code_simp
  have h3: "list_all2 (\<lambda>f c. feature_inverts (fidelity (1 / 1000)) f c False False True)
       (features ex_handler) (columns ex_table)"
    by code_simp
  have e3: "bind_err (encode ex_handler (Arr2 ex_table) False False)
         (\<lambda>E. case E of Arr2 M \<Rightarrow> decode ex_handler M False False True
                        | Arr1 r \<Rightarrow> Inl TypeError)
       = Inr (Frame [(''age'', [Num (Fin 5), Num (Fin 10)]), (''colour'', [Str ''red'', Str ''blue''])])"
    by code_simp
  have h4: "list_all2 (\<lambda>f c. feature_inverts (fidelity (1 / 1000)) f c False False False)
       (features ex_handler) (columns ex_table)"
    by code_simp
  have e4: "bind_err (encode ex_handler (Arr2 ex_table) False False)
         (\<lambda>E. case E of Arr2 M \<Rightarrow> decode ex_handler M False False False
                        | Arr1 r \<Rightarrow> Inl TypeError)
       = Inr (Array ex_table)"
    by code_simp
  show ?thesis
    using
      decode_encode_roundtrip [of ex_table ex_handler "fidelity (1 / 1000)" True True True]
      decode_encode_roundtrip [of ex_table ex_handler "fidelity (1 / 1000)" True False True]
      decode_encode_roundtrip [of ex_table ex_handler "fidelity (1 / 1000)" False True True]
      decode_encode_roundtrip [of ex_table ex_handler "fidelity (1 / 1000)" False False True]
      decode_encode_roundtrip [of ex_table ex_handler "fidelity (1 / 1000)" False False False]
      r f h0 h1 h2 h3 h4
    by (simp add: e0 e1 e2 e3 e4)
qed

text \<open>
  The claim C1 as stated fails twice. On a table with no rows the Features invert their
  encoding of the empty columns, and \<^verbatim>\<open>encode\<close> raises a ValueError, because numpy does
  not reshape to zero rows. And on a table with rows, without one-hot expansion, each
  Feature's \<^verbatim>\<open>decode\<close> inverts what its \<^verbatim>\<open>encode\<close> returned, and the round trip swaps
  the labels of the Categorical column: that Feature returns a one-dimensional array of
  positions, the Data Handler hands back a two-dimensional block of one column, and the
  Feature reads two dimensions as one-hot rows.
\<close>

theorem roundtrip_fails:
  "list_all2 (\<lambda>f c. decode_inverts_encode f c True True True)
       (features ex_handler) (columns ex_no_rows)
   \<and> encode ex_handler (Arr2 ex_no_rows) True True = Inl ValueError
   \<and> rows ex_table \<noteq> [] \<and> features ex_handler_by_rank \<noteq> []
   \<and> list_all2 (\<lambda>f c. decode_inverts_encode f c False False True)
       (features ex_handler_by_rank) (columns ex_table)
   \<and> bind_err (encode ex_handler_by_rank (Arr2 ex_table) False False)
         (\<lambda>E. case E of Arr2 M \<Rightarrow> decode ex_handler_by_rank M False False True
                        | Arr1 r \<Rightarrow> Inl TypeError)
       = Inr (Frame [(''age'', [Num (Fin 5), Num (Fin 10)]), (''colour'', [Str ''blue'', Str ''red''])])
   \<and> \<not> reproduces (fidelity (1 / 1000)) (features ex_handler_by_rank) ex_table True
         (Frame [(''age'', [Num (Fin 5), Num (Fin 10)]), (''colour'', [Str ''blue'', Str ''red''])])"
  by code_simp

end
